theory Spec2Isabelle
  imports Main "HOL-Library.Multiset" "HOL-Library.Sublist" "HOL-Library.Char_ord"
    "HOL-Library.List_Lexorder"
begin

section \<open>Errors\<close>

text \<open>
  The exceptions that the modelled code raises, or that the calls it makes raise, as
  values. A function that can raise returns \<open>error + 'a\<close>, with \<open>Inl\<close> for the
  exception.
\<close>

datatype error =
    ValueError string
  | KeyError string
  | IndexError
  | AttributeError string
  | S3Error string
  | FileNotFoundError string
  | OutputNotUniqueError string
  | CircularDependencyError

section \<open>Pipelines: nodes, registration and execution order\<close>

text \<open>
  A Kedro node as the pipeline files declare it: the name of the wrapped function, the
  names of the datasets it reads, the names of the datasets it writes, and its own name.
  \<^verbatim>\<open>outputs=None\<close> is the empty list of outputs and \<^verbatim>\<open>outputs="x"\<close> the one-element
  list.
\<close>

record node =
  func :: string
  inputs :: "string list"
  outputs :: "string list"
  name :: string

text \<open>
  A pipeline object, given by what its attribute \<^verbatim>\<open>nodes\<close> returns: the nodes in the
  topological order the library computes when the pipeline is built.
\<close>

datatype pipeline = PipelineNodes (nodes: "node list")

text \<open>
  Two nodes are the same element of a set when they agree on name, inputs and outputs;
  the wrapped function is not compared. \<open>dedup\<close> is \<^verbatim>\<open>set(xs)\<close> on a list of nodes: of
  the nodes that are the same element, the first stays.
\<close>

definition unique_key :: "node \<Rightarrow> string \<times> string list \<times> string list" where
  "unique_key n = (name n, inputs n, outputs n)"

fun dedup :: "node list \<Rightarrow> node list" where
  "dedup [] = []"
| "dedup (n # ns) = n # dedup (filter (\<lambda>m. unique_key m \<noteq> unique_key n) ns)"

text \<open>
  \<open>feeds m n\<close>: node \<open>n\<close> depends on node \<open>m\<close>, an output of \<open>m\<close> being an input of
  \<open>n\<close>. \<open>ready_nodes remaining\<close> are the nodes that depend on no other node of
  \<open>remaining\<close>.
\<close>

definition feeds :: "node \<Rightarrow> node \<Rightarrow> bool" where
  "feeds m n = list_ex (\<lambda>x. x \<in> set (inputs n)) (outputs m)"

definition ready_nodes :: "node list \<Rightarrow> node list" where
  "ready_nodes remaining =
     filter (\<lambda>k. \<not> list_ex (\<lambda>m. m \<noteq> k \<and> feeds m k) remaining) remaining"

text \<open>
  The topological sort of the library: the nodes that depend on nothing left come
  first, sorted among themselves (by name, the names of a pipeline being distinct), then
  the sort of the others; when nodes are left and each depends on another, the
  dependencies are circular.
\<close>

function toposort :: "node list \<Rightarrow> error + node list" where
  "toposort [] = Inr []"
| "toposort (n # ns) =
     (let ready = ready_nodes (n # ns)
      in if ready = [] then Inl CircularDependencyError
         else (case toposort (filter (\<lambda>k. k \<notin> set ready) (n # ns)) of
                 Inl e \<Rightarrow> Inl e
               | Inr rest \<Rightarrow> Inr (sort_key name ready @ rest)))"
  by pat_completeness auto
termination
proof (relation "measure length")
  show "wf (measure length)" by simp
next
  fix n :: node and ns ready
  assume r: "ready = ready_nodes (n # ns)" and ne: "ready \<noteq> []"
  define k where "k = hd ready"
  from ne have k: "k \<in> set ready" by (simp add: k_def)
  have "set (ready_nodes xs) \<subseteq> set xs" for xs
    by (simp add: ready_nodes_def)
  with r k have "k \<in> set (n # ns)" by blast
  from length_filter_less [OF this, of "\<lambda>k. k \<notin> set ready"] k
  show "(filter (\<lambda>k. k \<notin> set ready) (n # ns), n # ns) \<in> measure length" by simp
qed

text \<open>
  The constructor \<^verbatim>\<open>Pipeline(nodes)\<close>: it refuses two nodes of one name and a dataset
  written by two nodes, and sorts the nodes topologically.
\<close>

definition Pipeline :: "node list \<Rightarrow> error + pipeline" where
  "Pipeline ns =
     (if distinct (map name ns)
      then if distinct (concat (map outputs ns))
           then (case toposort ns of
                   Inl e \<Rightarrow> Inl e
                 | Inr ordered \<Rightarrow> Inr (PipelineNodes ordered))
           else Inl (OutputNotUniqueError ''Node outputs must be unique'')
      else Inl (ValueError ''Pipeline nodes must have unique names''))"

text \<open>
  \<^verbatim>\<open>p + q\<close> on pipelines is \<^verbatim>\<open>Pipeline(set(p.nodes + q.nodes))\<close>: the pipeline built
  from the nodes of both, each once.
\<close>

definition pipeline_add :: "pipeline \<Rightarrow> pipeline \<Rightarrow> error + pipeline" where
  "pipeline_add p q = Pipeline (dedup (nodes p @ nodes q))"

subsection \<open>pipelines/training_model/pipeline.py\<close>

definition training_model_node :: node where
  "training_model_node =
     \<lparr> func = ''training_loop'',
       inputs = [''train_sequences'', ''val_sequences'', ''test_sequences'',
                 ''params:training''],
       outputs = [],
       name = ''training_model_node'' \<rparr>"

definition training_model_create_pipeline :: "error + pipeline" where
  "training_model_create_pipeline = Pipeline [training_model_node]"

subsection \<open>pipelines/converting_to_onnx/pipeline.py\<close>

definition converting_model_node :: node where
  "converting_model_node =
     \<lparr> func = ''convert_model'',
       inputs = [''train_sequences'', ''val_sequences'', ''test_sequences'',
                 ''params:training'', ''params:dir_path'', ''training_done''],
       outputs = [''conversion_done'', ''input_sample''],
       name = ''converting_model_node'' \<rparr>"

definition validating_model_node :: node where
  "validating_model_node =
     \<lparr> func = ''validate_model'',
       inputs = [''params:dir_path'', ''conversion_done'', ''input_sample''],
       outputs = [''validation_done''],
       name = ''validating_model_node'' \<rparr>"

definition converting_to_onnx_create_pipeline :: "error + pipeline" where
  "converting_to_onnx_create_pipeline =
     Pipeline [converting_model_node, validating_model_node]"

subsection \<open>pipeline_registry.py\<close>

text \<open>
  The packages \<^verbatim>\<open>fetching_data\<close> and \<^verbatim>\<open>preprocessing_data\<close> are not among the
  sources, so the pipelines their \<^verbatim>\<open>create_pipeline()\<close> return are the parameters
  \<open>fd\<close> and \<open>pd\<close>. The returned dict literal is the association list of its entries,
  in the order written; an exception raised while the pipelines are built or summed
  leaves the function.
\<close>

definition register_pipelines :: "pipeline \<Rightarrow> pipeline \<Rightarrow> error + (string \<times> pipeline) list" where
  "register_pipelines fd pd =
     (let fetching_data_pipeline = fd;
          preprocessing_data_pipeline = pd
      in case training_model_create_pipeline of
           Inl e \<Rightarrow> Inl e
         | Inr training_model_pipeline \<Rightarrow>
        (case converting_to_onnx_create_pipeline of
           Inl e \<Rightarrow> Inl e
         | Inr converting_to_onnx_pipeline \<Rightarrow>
        (case pipeline_add fetching_data_pipeline preprocessing_data_pipeline of
           Inl e \<Rightarrow> Inl e
         | Inr s1 \<Rightarrow>
        (case pipeline_add s1 training_model_pipeline of
           Inl e \<Rightarrow> Inl e
         | Inr s2 \<Rightarrow>
        (case pipeline_add s2 converting_to_onnx_pipeline of
           Inl e \<Rightarrow> Inl e
         | Inr default_pipeline \<Rightarrow>
             Inr [(''__default__'', default_pipeline),
                  (''fetching_data'', fetching_data_pipeline),
                  (''preprocessing_data'', preprocessing_data_pipeline),
                  (''training_model'', training_model_pipeline),
                  (''converting_to_onnx'', converting_to_onnx_pipeline)])))))"

subsection \<open>Execution order of a pipeline\<close>

text \<open>
  The runner executes every node of a pipeline once, and a node only when each of its
  inputs that some node of the pipeline produces has been produced. \<open>produces ns x\<close>
  says that a node of \<open>ns\<close> writes dataset \<open>x\<close>; \<open>deps_ok all earlier rest\<close> checks the
  nodes of \<open>rest\<close> in the order they run, \<open>earlier\<close> being the nodes that ran before.
\<close>

definition produces :: "node list \<Rightarrow> string \<Rightarrow> bool" where
  "produces ns x = list_ex (\<lambda>m. x \<in> set (outputs m)) ns"

fun deps_ok :: "node list \<Rightarrow> node list \<Rightarrow> node list \<Rightarrow> bool" where
  "deps_ok all earlier [] = True"
| "deps_ok all earlier (n # rest) =
     (list_all (produces earlier) (filter (produces all) (inputs n))
      \<and> deps_ok all (n # earlier) rest)"

definition is_run :: "pipeline \<Rightarrow> node list \<Rightarrow> bool" where
  "is_run p order = (mset order = mset (nodes p) \<and> deps_ok (nodes p) [] order)"

text \<open>\<open>runs_before a b order\<close>: \<open>a\<close> has run when \<open>b\<close> runs for the first time.\<close>

definition runs_before :: "node \<Rightarrow> node \<Rightarrow> node list \<Rightarrow> bool" where
  "runs_before a b order =
     (b \<in> set order \<and> a \<in> set (takeWhile (\<lambda>n. n \<noteq> b) order))"

section \<open>pipelines/training_model/dataloader.py\<close>

text \<open>
  Modelled from the spec: the class \<^verbatim>\<open>CryptoDataset\<close> (module \<^verbatim>\<open>crypto_dataset\<close>) is not
  among the sources. A dataset is the value built from the list of sequences it was
  given.
\<close>

datatype 'a crypto_dataset = CryptoDataset (sequences: "'a list")

text \<open>
  A \<^verbatim>\<open>torch.utils.data.DataLoader\<close> is represented by the arguments it was built
  from.
\<close>

record 'a data_loader =
  dataset :: "'a crypto_dataset"
  batch_size :: int
  shuffle :: bool
  num_workers :: int

text \<open>
  The constructor call \<^verbatim>\<open>DataLoader(ds, batch_size=bs, shuffle=sh, num_workers=nw)\<close>:
  it refuses a negative worker count, and then a batch size that is not positive, with
  \<^verbatim>\<open>ValueError\<close> (the texts of the messages are shortened).
\<close>

definition DataLoader ::
  "'a crypto_dataset \<Rightarrow> int \<Rightarrow> bool \<Rightarrow> int \<Rightarrow> error + 'a data_loader" where
  "DataLoader ds bs sh nw =
     (if nw < 0 then Inl (ValueError ''num_workers option should be non-negative'')
      else if bs \<le> 0 then Inl (ValueError ''batch_size should be a positive integer value'')
      else Inr \<lparr> dataset = ds, batch_size = bs, shuffle = sh, num_workers = nw \<rparr>)"

text \<open>
  The order in which a loader visits the elements of its dataset: the indices in
  sequence when \<open>shuffle\<close> is off, and a random permutation of them, here the
  parameter \<open>perm\<close>, when it is on. Batching groups consecutive visited elements and
  does not reorder them.
\<close>

definition sampler :: "(nat list \<Rightarrow> nat list) \<Rightarrow> 'a data_loader \<Rightarrow> nat list" where
  "sampler perm dl =
     (let idx = [0 ..< length (sequences (dataset dl))]
      in if shuffle dl then perm idx else idx)"

definition visited :: "(nat list \<Rightarrow> nat list) \<Rightarrow> 'a data_loader \<Rightarrow> 'a list" where
  "visited perm dl = map (\<lambda>i. sequences (dataset dl) ! i) (sampler perm dl)"

text \<open>
  The attributes of an \<^verbatim>\<open>LSTMDataLoader\<close>. The three dataset attributes do not exist
  until \<^verbatim>\<open>setup\<close> has assigned them (\<open>None\<close>); reading one before raises
  \<^verbatim>\<open>AttributeError\<close>.
\<close>

record 'a lstm_data_loader =
  train_sequences :: "'a list"
  val_sequences :: "'a list"
  test_sequences :: "'a list"
  train_batch_size :: int
  val_batch_size :: int
  train_workers :: int
  val_workers :: int
  test_workers :: int
  train_dataset :: "'a crypto_dataset option"
  val_dataset :: "'a crypto_dataset option"
  test_dataset :: "'a crypto_dataset option"

text \<open>
  \<^verbatim>\<open>__init__\<close>. The two worker counts have defaults (2 and 1): an argument left out is
  \<open>None\<close>.
\<close>

definition LSTMDataLoader_init ::
  "'a list \<Rightarrow> 'a list \<Rightarrow> 'a list \<Rightarrow> int \<Rightarrow> int \<Rightarrow> int option \<Rightarrow> int option
     \<Rightarrow> 'a lstm_data_loader" where
  "LSTMDataLoader_init train_seqs val_seqs test_seqs train_bs val_bs train_w val_w =
     (let tw = (case train_w of None \<Rightarrow> 2 | Some n \<Rightarrow> n);
          vw = (case val_w of None \<Rightarrow> 1 | Some n \<Rightarrow> n)
      in \<lparr> train_sequences = train_seqs,
           val_sequences = val_seqs,
           test_sequences = test_seqs,
           train_batch_size = train_bs,
           val_batch_size = val_bs,
           train_workers = tw,
           val_workers = vw,
           test_workers = vw,
           train_dataset = None,
           val_dataset = None,
           test_dataset = None \<rparr>)"

text \<open>
  The method \<^verbatim>\<open>setup\<close> (the name is an Isabelle command, hence the prefix); its
  argument \<^verbatim>\<open>stage\<close> is not used.
\<close>

definition LSTMDataLoader_setup ::
  "'a lstm_data_loader \<Rightarrow> string option \<Rightarrow> 'a lstm_data_loader" where
  "LSTMDataLoader_setup self stage =
     self \<lparr> train_dataset := Some (CryptoDataset (train_sequences self)),
            val_dataset := Some (CryptoDataset (val_sequences self)),
            test_dataset := Some (CryptoDataset (test_sequences self)) \<rparr>"

definition train_dataloader :: "'a lstm_data_loader \<Rightarrow> error + 'a data_loader" where
  "train_dataloader self =
     (case train_dataset self of
        None \<Rightarrow> Inl (AttributeError ''train_dataset'')
      | Some ds \<Rightarrow> DataLoader ds (train_batch_size self) False (train_workers self))"

definition val_dataloader :: "'a lstm_data_loader \<Rightarrow> error + 'a data_loader" where
  "val_dataloader self =
     (case val_dataset self of
        None \<Rightarrow> Inl (AttributeError ''val_dataset'')
      | Some ds \<Rightarrow> DataLoader ds (val_batch_size self) False (val_workers self))"

definition test_dataloader :: "'a lstm_data_loader \<Rightarrow> error + 'a data_loader" where
  "test_dataloader self =
     (case test_dataset self of
        None \<Rightarrow> Inl (AttributeError ''test_dataset'')
      | Some ds \<Rightarrow> DataLoader ds (val_batch_size self) False (test_workers self))"

section \<open>serving/model_loader.py\<close>

subsection \<open>Strings\<close>

text \<open>
  \<^verbatim>\<open>s.split(c)\<close> for a one-character separator: the pieces of \<open>s\<close> between the
  occurrences of \<open>c\<close>, one more piece than there are occurrences; the empty string
  gives one empty piece. The last case of the inner \<open>case\<close> is never reached, the
  result of \<open>split_on\<close> having at least one piece.
\<close>

fun split_on :: "char \<Rightarrow> string \<Rightarrow> string list" where
  "split_on c [] = [[]]"
| "split_on c (x # xs) =
     (if x = c then [] # split_on c xs
      else (case split_on c xs of
              p # ps \<Rightarrow> (x # p) # ps
            | [] \<Rightarrow> [[x]]))"

text \<open>\<^verbatim>\<open>xs[1]\<close> on a list.\<close>

definition index1 :: "'a list \<Rightarrow> error + 'a" where
  "index1 xs = (case xs of _ # y # _ \<Rightarrow> Inr y | _ \<Rightarrow> Inl IndexError)"

text \<open>The destructuring assignment \<^verbatim>\<open>a, b = xs\<close>.\<close>

definition unpack2 :: "'a list \<Rightarrow> error + ('a \<times> 'a)" where
  "unpack2 xs =
     (case xs of
        [a, b] \<Rightarrow> Inr (a, b)
      | [] \<Rightarrow> Inl (ValueError ''not enough values to unpack (expected 2, got 0)'')
      | [a] \<Rightarrow> Inl (ValueError ''not enough values to unpack (expected 2, got 1)'')
      | _ \<Rightarrow> Inl (ValueError ''too many values to unpack (expected 2)''))"

subsection \<open>The object storage, the local file system and the clock\<close>

text \<open>
  What the loader acts on outside itself: the buckets of the storage server, each with
  the names of its objects; the local directories that exist; the log of the downloads
  made so far, each as (bucket, object name, local file path); and the current date as
  \<^verbatim>\<open>datetime.now().strftime("%Y-%m-%d")\<close> gives it. The storage client checks a bucket
  name before it sends a request and raises \<^verbatim>\<open>ValueError\<close> for a name it refuses; the
  rules of that check belong to the client library and are the predicate
  \<open>valid_bucket_name\<close>, and \<open>valid_new_bucket_name\<close> for the stricter check that
  \<^verbatim>\<open>make_bucket\<close> makes.
\<close>

record world =
  buckets :: "string \<rightharpoonup> string list"
  dirs :: "string set"
  fetched :: "(string \<times> string \<times> string) list"
  today :: string
  valid_bucket_name :: "string \<Rightarrow> bool"
  valid_new_bucket_name :: "string \<Rightarrow> bool"

definition bucket_exists :: "world \<Rightarrow> string \<Rightarrow> error + bool" where
  "bucket_exists w b =
     (if valid_bucket_name w b then Inr (buckets w b \<noteq> None)
      else Inl (ValueError ''invalid bucket name''))"

definition make_bucket :: "world \<Rightarrow> string \<Rightarrow> (error + unit) \<times> world" where
  "make_bucket w b =
     (if valid_new_bucket_name w b
      then if buckets w b \<noteq> None then (Inl (S3Error ''BucketAlreadyOwnedByYou''), w)
           else (Inr (), w \<lparr> buckets := (buckets w)(b \<mapsto> []) \<rparr>)
      else (Inl (ValueError ''invalid bucket name''), w))"

text \<open>
  \<^verbatim>\<open>list_objects(bucket, prefix=pre, recursive=True)\<close>: the objects of the bucket whose
  name starts with \<open>pre\<close>.
\<close>

definition list_objects :: "world \<Rightarrow> string \<Rightarrow> string \<Rightarrow> error + string list" where
  "list_objects w b pre =
     (if valid_bucket_name w b
      then (case buckets w b of
              None \<Rightarrow> Inl (S3Error ''NoSuchBucket'')
            | Some objs \<Rightarrow> Inr (filter (prefix pre) objs))
      else Inl (ValueError ''invalid bucket name''))"

definition fget_object :: "world \<Rightarrow> string \<Rightarrow> string \<Rightarrow> string \<Rightarrow> (error + unit) \<times> world" where
  "fget_object w b obj file_path =
     (if valid_bucket_name w b
      then (case buckets w b of
              None \<Rightarrow> (Inl (S3Error ''NoSuchBucket''), w)
            | Some objs \<Rightarrow>
                if obj \<in> set objs
                then (Inr (), w \<lparr> fetched := fetched w @ [(b, obj, file_path)] \<rparr>)
                else (Inl (S3Error ''NoSuchKey''), w))
      else (Inl (ValueError ''invalid bucket name''), w))"

subsection \<open>ModelLoader\<close>

text \<open>
  Modelled from the spec: the class \<^verbatim>\<open>OnnxModel\<close> (module \<^verbatim>\<open>model\<close>) is not among the
  sources. A model object is the value built from the two paths it was given; its
  method \<^verbatim>\<open>predict\<close> is a parameter of \<open>get_predictions\<close>.
\<close>

datatype onnx_model = OnnxModel string string

text \<open>An entry of \<^verbatim>\<open>session_models\<close>, the dict \<^verbatim>\<open>{"model": model}\<close>.\<close>

record session_entry =
  model :: onnx_model

text \<open>
  The attributes of a \<^verbatim>\<open>ModelLoader\<close>. The client is the handle on the storage
  server of \<open>world\<close>; \<open>storage_path\<close> is the text of \<^verbatim>\<open>Path("./models")\<close>. Methods
  whose name starts with an underscore in the source are written without it.
\<close>

record model_loader =
  bucket :: string
  session_models :: "string \<rightharpoonup> session_entry"
  storage_path :: string
  date :: string

definition check_model_exists_in_session :: "model_loader \<Rightarrow> string \<Rightarrow> bool" where
  "check_model_exists_in_session self model_name =
     (if model_name \<in> dom (session_models self) then True else False)"

text \<open>
  \<open>get_predictions\<close> returns the loader with its result: it assigns nothing, so the
  loader comes back as it was given. \<open>predict\<close> stands for \<^verbatim>\<open>OnnxModel.predict\<close>,
  which may itself raise.
\<close>

definition get_predictions ::
  "(onnx_model \<Rightarrow> 's \<Rightarrow> error + 'p) \<Rightarrow> model_loader \<Rightarrow> string \<Rightarrow> 's
     \<Rightarrow> (error + 'p) \<times> model_loader" where
  "get_predictions predict self model_name sample =
     (if check_model_exists_in_session self model_name
      then (case session_models self model_name of
              None \<Rightarrow> (Inl (KeyError model_name), self)
            | Some entry \<Rightarrow> (predict (model entry) sample, self))
      else (Inl (ValueError ''Model not found in session.''), self))"

definition update_date :: "model_loader \<Rightarrow> world \<Rightarrow> model_loader" where
  "update_date self w = self \<lparr> date := today w \<rparr>"

definition get_models_files_path :: "model_loader \<Rightarrow> string \<Rightarrow> string \<Rightarrow> string \<times> string" where
  "get_models_files_path self currency compare =
     (storage_path self @ ''/'' @ currency @ ''_'' @ compare @ ''/model.onnx'',
      storage_path self @ ''/'' @ currency @ ''_'' @ compare @ ''/scaler.pkl'')"

text \<open>
  \<^verbatim>\<open>mkdir(exist_ok=True)\<close> without \<^verbatim>\<open>parents\<close>: the parent directory has to exist, an
  existing directory is left as it is.
\<close>

definition makedir :: "model_loader \<Rightarrow> world \<Rightarrow> string \<Rightarrow> string \<Rightarrow> (error + unit) \<times> world" where
  "makedir self w currency compare =
     (if storage_path self \<in> dirs w
      then (Inr (),
            w \<lparr> dirs := insert (storage_path self @ ''/'' @ currency @ ''_'' @ compare) (dirs w) \<rparr>)
      else (Inl (FileNotFoundError (storage_path self)), w))"

definition download_files ::
  "model_loader \<Rightarrow> world \<Rightarrow> string \<Rightarrow> string \<Rightarrow> (error + unit) \<times> world" where
  "download_files self w currency compare =
     (case makedir self w currency compare of
        (Inl e, w1) \<Rightarrow> (Inl e, w1)
      | (Inr _, w1) \<Rightarrow>
          (case fget_object w1 (bucket self)
                  (date self @ ''/'' @ currency @ ''_'' @ compare @ ''/model.onnx'')
                  (storage_path self @ ''/'' @ currency @ ''_'' @ compare @ ''/model.onnx'') of
             (Inl e, w2) \<Rightarrow> (Inl e, w2)
           | (Inr _, w2) \<Rightarrow>
               fget_object w2 (bucket self)
                 (date self @ ''/'' @ currency @ ''_'' @ compare @ ''/scaler.pkl'')
                 (storage_path self @ ''/'' @ currency @ ''_'' @ compare @ ''/scaler.pkl'')))"

text \<open>The list comprehension \<^verbatim>\<open>[name.split("/")[1] for name in names]\<close>.\<close>

fun second_parts :: "string list \<Rightarrow> error + string list" where
  "second_parts [] = Inr []"
| "second_parts (obj # objs) =
     (case index1 (split_on CHR ''/'' obj) of
        Inl e \<Rightarrow> Inl e
      | Inr n \<Rightarrow> (case second_parts objs of Inl e \<Rightarrow> Inl e | Inr ns \<Rightarrow> Inr (n # ns)))"

text \<open>
  \<^verbatim>\<open>list(set(xs))\<close> keeps one copy of every element, in an order the language does not
  fix: the parameter \<open>as_list\<close> is that choice of order.
\<close>

definition get_list_of_available_models ::
  "(string list \<Rightarrow> string list) \<Rightarrow> model_loader \<Rightarrow> world \<Rightarrow> error + string list" where
  "get_list_of_available_models as_list self w =
     (case list_objects w (bucket self) (date self) of
        Inl e \<Rightarrow> Inl e
      | Inr available_models \<Rightarrow>
          (case second_parts available_models of
             Inl e \<Rightarrow> Inl e
           | Inr names \<Rightarrow> Inr (as_list names)))"

text \<open>
  \<open>add_model_to_session_models\<close>; the message it returns, which its only caller drops,
  is left out.
\<close>

definition add_model_to_session_models :: "model_loader \<Rightarrow> string \<Rightarrow> string \<Rightarrow> model_loader" where
  "add_model_to_session_models self currency compare =
     (case get_models_files_path self currency compare of
        (model_path, scaler_path) \<Rightarrow>
          (let m = OnnxModel model_path scaler_path
           in self \<lparr> session_models :=
                       (session_models self)(currency @ ''_'' @ compare \<mapsto> \<lparr> model = m \<rparr>) \<rparr>))"

text \<open>The body of the loop of \<open>update_model_files\<close>, over the names still to handle.\<close>

fun update_loop ::
  "model_loader \<Rightarrow> world \<Rightarrow> string list \<Rightarrow> (error + unit) \<times> model_loader \<times> world" where
  "update_loop self w [] = (Inr (), self, w)"
| "update_loop self w (m # ms) =
     (case unpack2 (split_on CHR ''_'' m) of
        Inl e \<Rightarrow> (Inl e, self, w)
      | Inr (currency, compare) \<Rightarrow>
          (case download_files self w currency compare of
             (Inl e, w1) \<Rightarrow> (Inl e, self, w1)
           | (Inr _, w1) \<Rightarrow>
               update_loop (add_model_to_session_models self currency compare) w1 ms))"

definition update_model_files ::
  "(string list \<Rightarrow> string list) \<Rightarrow> model_loader \<Rightarrow> world
     \<Rightarrow> (error + unit) \<times> model_loader \<times> world" where
  "update_model_files as_list self w =
     (case get_list_of_available_models as_list self w of
        Inl e \<Rightarrow> (Inl e, self, w)
      | Inr models \<Rightarrow> update_loop self w models)"

text \<open>
  \<^verbatim>\<open>__init__\<close>. \<open>b\<close> is the value of the environment variable \<^verbatim>\<open>MINIO_BUCKET\<close>. The
  attribute \<open>date\<close> gets its first value from \<open>update_date\<close>, before anything reads
  it.
\<close>

definition ModelLoader_init ::
  "(string list \<Rightarrow> string list) \<Rightarrow> string \<Rightarrow> world \<Rightarrow> (error + model_loader) \<times> world" where
  "ModelLoader_init as_list b w =
     (case bucket_exists w b of
        Inl e \<Rightarrow> (Inl e, w)
      | Inr present \<Rightarrow>
     (case (if \<not> present then make_bucket w b else (Inr (), w)) of
        (Inl e, w1) \<Rightarrow> (Inl e, w1)
      | (Inr _, w1) \<Rightarrow>
          (let self = \<lparr> bucket = b, session_models = Map.empty,
                        storage_path = ''models'', date = [] \<rparr>;
               self = update_date self w1
           in case update_model_files as_list self w1 of
                (Inl e, _, w2) \<Rightarrow> (Inl e, w2)
              | (Inr _, self, w2) \<Rightarrow> (Inr self, w2))))"

subsection \<open>Notions used to state the properties of the loader\<close>

text \<open>
  \<open>from_date self e\<close>: the download \<open>e\<close> was made from the bucket of the loader and from
  an object under the directory named by the date of the loader.
\<close>

definition from_date :: "model_loader \<Rightarrow> (string \<times> string \<times> string) \<Rightarrow> bool" where
  "from_date self e = (fst e = bucket self \<and> prefix (date self @ ''/'') (fst (snd e)))"

text \<open>
  The entry that \<open>add_model_to_session_models\<close> stores for the model named \<open>n\<close>, and
  the two downloads that \<open>download_files\<close> makes for it.
\<close>

definition entry_for :: "model_loader \<Rightarrow> string \<Rightarrow> session_entry" where
  "entry_for self n =
     \<lparr> model = OnnxModel (storage_path self @ ''/'' @ n @ ''/model.onnx'')
                         (storage_path self @ ''/'' @ n @ ''/scaler.pkl'') \<rparr>"

definition fetched_for :: "model_loader \<Rightarrow> string \<Rightarrow> (string \<times> string \<times> string) list" where
  "fetched_for self n =
     [(bucket self, date self @ ''/'' @ n @ ''/model.onnx'',
       storage_path self @ ''/'' @ n @ ''/model.onnx''),
      (bucket self, date self @ ''/'' @ n @ ''/scaler.pkl'',
       storage_path self @ ''/'' @ n @ ''/scaler.pkl'')]"

text \<open>
  A small storage for the examples: one bucket holding today's model for one currency
  pair and a model of the day before for another; the loader that \<^verbatim>\<open>__init__\<close> builds
  on it, and the storage and file system it leaves.
\<close>

definition demo_world :: world where
  "demo_world =
     \<lparr> buckets = [''crypto'' \<mapsto>
         [''2022-03-01/BTC_USDT/model.onnx'', ''2022-03-01/BTC_USDT/scaler.pkl'',
          ''2022-02-28/ETH_USDT/model.onnx'']],
       dirs = {''models''},
       fetched = [],
       today = ''2022-03-01'',
       valid_bucket_name = (\<lambda>b. 3 \<le> length b \<and> length b \<le> 63),
       valid_new_bucket_name = (\<lambda>b. 3 \<le> length b \<and> length b \<le> 63) \<rparr>"

definition demo_loader :: model_loader where
  "demo_loader =
     \<lparr> bucket = ''crypto'',
       session_models = [''BTC_USDT'' \<mapsto>
         \<lparr> model = OnnxModel ''models/BTC_USDT/model.onnx'' ''models/BTC_USDT/scaler.pkl'' \<rparr>],
       storage_path = ''models'',
       date = ''2022-03-01'' \<rparr>"

definition demo_world_after :: world where
  "demo_world_after =
     demo_world \<lparr> dirs := {''models/BTC_USDT'', ''models''},
       fetched := [(''crypto'', ''2022-03-01/BTC_USDT/model.onnx'', ''models/BTC_USDT/model.onnx''),
                   (''crypto'', ''2022-03-01/BTC_USDT/scaler.pkl'', ''models/BTC_USDT/scaler.pkl'')] \<rparr>"

section \<open>Properties of the pipelines\<close>

lemma produces_Cons: "produces (n # ns) x \<longleftrightarrow> x \<in> set (outputs n) \<or> produces ns x"
  by (simp add: produces_def)

lemma toposort_Cons_Inr:
  assumes "toposort (n # ns) = Inr out"
  shows "ready_nodes (n # ns) \<noteq> [] \<and>
    (\<exists>rest. toposort (filter (\<lambda>k. k \<notin> set (ready_nodes (n # ns))) (n # ns)) = Inr rest
        \<and> out = sort_key name (ready_nodes (n # ns)) @ rest)"
proof -
  let ?ready = "ready_nodes (n # ns)"
  let ?t = "toposort (filter (\<lambda>k. k \<notin> set ?ready) (n # ns))"
  from assms have e: "(if ?ready = [] then Inl CircularDependencyError
         else (case ?t of Inl e \<Rightarrow> Inl e | Inr rest \<Rightarrow> Inr (sort_key name ?ready @ rest)))
       = Inr out"
    by (simp only: toposort.simps Let_def)
  show ?thesis
  proof (cases "?ready = []")
    case True
    with e show ?thesis by (simp only: if_True) simp
  next
    case False
    with e have c: "(case ?t of Inl e \<Rightarrow> Inl e | Inr rest \<Rightarrow> Inr (sort_key name ?ready @ rest))
       = Inr out" by (simp only: if_False)
    show ?thesis
    proof (cases ?t)
      case (Inl x)
      with c show ?thesis by (simp only: sum.case) simp
    next
      case (Inr rest)
      with c have "out = sort_key name ?ready @ rest" by (simp only: sum.case) simp
      with False Inr show ?thesis by blast
    qed
  qed
qed

lemma toposort_mset:
  assumes "toposort ns = Inr out"
  shows "mset out = mset ns"
  using assms
proof (induction ns arbitrary: out rule: toposort.induct)
  case 1
  then show ?case by simp
next
  case (2 n ns)
  let ?rem = "n # ns"
  let ?ready = "ready_nodes ?rem"
  from toposort_Cons_Inr [OF "2.prems"] obtain rest where
    ne: "?ready \<noteq> []" and
    r: "toposort (filter (\<lambda>k. k \<notin> set ?ready) ?rem) = Inr rest"
    and o: "out = sort_key name ?ready @ rest"
    by blast
  from "2.IH" [OF refl ne r]
  have a: "mset rest = mset (filter (\<lambda>k. k \<notin> set ?ready) ?rem)" .
  have b: "filter (\<lambda>k. k \<notin> set ?ready) ?rem =
      filter (\<lambda>k. \<not> \<not> list_ex (\<lambda>m. m \<noteq> k \<and> feeds m k) ?rem) ?rem"
    by (rule filter_cong [OF refl]) (simp only: ready_nodes_def set_filter, blast)
  have c: "mset ?ready + mset (filter (\<lambda>k. \<not> \<not> list_ex (\<lambda>m. m \<noteq> k \<and> feeds m k) ?rem) ?rem)
      = mset ?rem"
    unfolding ready_nodes_def mset_filter by (rule multiset_partition [symmetric])
  have "mset out = mset ?ready + mset rest" by (simp only: o mset_append mset_sort)
  also have "\<dots> = mset ?rem" by (simp only: a b c)
  finally show ?case .
qed

lemma dedup_subset: "set (dedup xs) \<subseteq> set xs"
  by (induction xs rule: dedup.induct) auto

lemma dedup_keys: "unique_key ` set (dedup xs) = unique_key ` set xs"
proof (induction xs rule: dedup.induct)
  case 1
  show ?case by simp
next
  case (2 n ns)
  have "unique_key ` set (n # ns) =
      insert (unique_key n) (unique_key ` set (filter (\<lambda>m. unique_key m \<noteq> unique_key n) ns))"
    by auto
  with 2 show ?case by simp
qed

lemma Pipeline_Inr:
  assumes "Pipeline ns = Inr p"
  shows "mset (nodes p) = mset ns \<and> distinct (map name (nodes p))"
proof -
  from assms obtain out where d: "distinct (map name ns)" and t: "toposort ns = Inr out"
    and p: "p = PipelineNodes out"
    by (auto simp: Pipeline_def split: if_splits sum.splits)
  from toposort_mset [OF t] have m: "mset out = mset ns" .
  then have "mset (map name out) = mset (map name ns)" by simp
  from mset_eq_imp_distinct_iff [OF this] d have "distinct (map name out)" by simp
  with m p show ?thesis by simp
qed

lemma pipeline_add_Inr:
  assumes "pipeline_add p q = Inr r"
  shows "set (nodes r) \<subseteq> set (nodes p) \<union> set (nodes q)
    \<and> unique_key ` set (nodes r) = unique_key ` (set (nodes p) \<union> set (nodes q))
    \<and> distinct (map name (nodes r))"
proof -
  from assms have "Pipeline (dedup (nodes p @ nodes q)) = Inr r" by (simp add: pipeline_add_def)
  from Pipeline_Inr [OF this] have m: "mset (nodes r) = mset (dedup (nodes p @ nodes q))"
    and d: "distinct (map name (nodes r))" by simp_all
  from m have s: "set (nodes r) = set (dedup (nodes p @ nodes q))" by (rule mset_eq_setD)
  with dedup_subset [of "nodes p @ nodes q"] dedup_keys [of "nodes p @ nodes q"] d
  show ?thesis by simp
qed

lemma training_model_pipeline:
  "training_model_create_pipeline = Inr (PipelineNodes [training_model_node])"
  by (simp add: training_model_create_pipeline_def Pipeline_def ready_nodes_def feeds_def
      training_model_node_def)

lemma converting_to_onnx_pipeline:
  "converting_to_onnx_create_pipeline =
     Inr (PipelineNodes [converting_model_node, validating_model_node])"
  by (simp add: converting_to_onnx_create_pipeline_def Pipeline_def ready_nodes_def feeds_def
      converting_model_node_def validating_model_node_def)

lemma register_pipelines_empty:
  "register_pipelines (PipelineNodes []) (PipelineNodes []) =
     Inr [(''__default__'',
           PipelineNodes [converting_model_node, training_model_node, validating_model_node]),
          (''fetching_data'', PipelineNodes []),
          (''preprocessing_data'', PipelineNodes []),
          (''training_model'', PipelineNodes [training_model_node]),
          (''converting_to_onnx'', PipelineNodes [converting_model_node, validating_model_node])]"
proof -
  have a: "pipeline_add (PipelineNodes []) (PipelineNodes []) = Inr (PipelineNodes [])"
    by (simp add: pipeline_add_def Pipeline_def)
  have b: "pipeline_add (PipelineNodes []) (PipelineNodes [training_model_node]) =
      Inr (PipelineNodes [training_model_node])"
    by (simp add: pipeline_add_def Pipeline_def ready_nodes_def feeds_def training_model_node_def)
  have c: "pipeline_add (PipelineNodes [training_model_node])
      (PipelineNodes [converting_model_node, validating_model_node]) =
      Inr (PipelineNodes [converting_model_node, training_model_node, validating_model_node])"
    by (simp add: pipeline_add_def Pipeline_def ready_nodes_def feeds_def unique_key_def
        training_model_node_def converting_model_node_def validating_model_node_def)
  show ?thesis
    by (simp add: register_pipelines_def Let_def training_model_pipeline
        converting_to_onnx_pipeline a b c)
qed

lemma runs_before_Cons:
  "n \<noteq> b \<Longrightarrow> runs_before a b (n # rest) \<longleftrightarrow> a = n \<and> b \<in> set rest \<or> runs_before a b rest"
  by (auto simp: runs_before_def)

text \<open>
  In an order that respects the dependencies, the only producer of a dataset has run
  before any node that reads the dataset.
\<close>

lemma deps_ok_producer_first:
  assumes "deps_ok all earlier order" and "b \<in> set order" and "x \<in> set (inputs b)"
    and "produces all x" and "\<not> produces earlier x"
    and "\<And>m. m \<in> set order \<Longrightarrow> x \<in> set (outputs m) \<Longrightarrow> m = a"
  shows "runs_before a b order"
  using assms
proof (induction order arbitrary: earlier)
  case Nil
  then show ?case by simp
next
  case (Cons n rest)
  have nb: "n \<noteq> b"
  proof
    assume "n = b"
    with Cons.prems(1,3,4) have "produces earlier x"
      by (simp add: list_all_iff)
    with Cons.prems(5) show False by simp
  qed
  with Cons.prems(2) have brest: "b \<in> set rest" by auto
  show ?case
  proof (cases "x \<in> set (outputs n)")
    case True
    then have "n = a" using Cons.prems(6) by simp
    with nb brest show ?thesis by (simp add: runs_before_Cons)
  next
    case False
    with Cons.prems(5) have "\<not> produces (n # earlier) x" by (simp add: produces_Cons)
    moreover from Cons.prems(1) have "deps_ok all (n # earlier) rest" by simp
    ultimately have "runs_before a b rest"
      using Cons.IH [of "n # earlier"] brest Cons.prems(3,4,6) by simp
    with nb show ?thesis by (simp add: runs_before_Cons)
  qed
qed

text \<open>
  C1 as stated fails on the order of the default pipeline: with empty fetching and
  preprocessing pipelines the sum lists \<open>converting_model_node\<close> before
  \<open>training_model_node\<close>, where the concatenation in operand order has the training
  node first.
\<close>

theorem register_pipelines_order_counterexample:
  "register_pipelines (PipelineNodes []) (PipelineNodes []) =
     Inr [(''__default__'',
           PipelineNodes [converting_model_node, training_model_node, validating_model_node]),
          (''fetching_data'', PipelineNodes []),
          (''preprocessing_data'', PipelineNodes []),
          (''training_model'', PipelineNodes [training_model_node]),
          (''converting_to_onnx'', PipelineNodes [converting_model_node, validating_model_node])]
   \<and> nodes (PipelineNodes [converting_model_node, training_model_node, validating_model_node])
       \<noteq> nodes (PipelineNodes []) @ nodes (PipelineNodes [])
           @ nodes (PipelineNodes [training_model_node])
           @ nodes (PipelineNodes [converting_model_node, validating_model_node])"
  by (simp add: register_pipelines_empty training_model_node_def converting_model_node_def)

text \<open>
  C1, amended: whenever \<open>register_pipelines\<close> returns (the four pipelines combine
  without two nodes of one name, without a dataset written twice and without a circular
  dependency), the mapping has exactly the keys \<^verbatim>\<open>__default__\<close>, \<^verbatim>\<open>fetching_data\<close>,
  \<^verbatim>\<open>preprocessing_data\<close>, \<^verbatim>\<open>training_model\<close> and \<^verbatim>\<open>converting_to_onnx\<close>, each once;
  every named entry is the pipeline of its stage, and the default entry is the sum
  fetching + preprocessing + training + converting: its nodes are nodes of the four
  pipelines, every node of the four pipelines is in it (up to the wrapped function, which
  the library does not compare), and no two of its nodes have one name.
\<close>

theorem register_pipelines_mapping:
  assumes "register_pipelines fd pd = Inr m"
  shows "map fst m =
     [''__default__'', ''fetching_data'', ''preprocessing_data'', ''training_model'',
      ''converting_to_onnx'']
   \<and> distinct (map fst m)
   \<and> dom (map_of m) =
       {''__default__'', ''fetching_data'', ''preprocessing_data'', ''training_model'',
        ''converting_to_onnx''}
   \<and> map_of m ''fetching_data'' = Some fd
   \<and> map_of m ''preprocessing_data'' = Some pd
   \<and> map_of m ''training_model'' = Some (PipelineNodes [training_model_node])
   \<and> map_of m ''converting_to_onnx'' =
       Some (PipelineNodes [converting_model_node, validating_model_node])
   \<and> training_model_create_pipeline = Inr (PipelineNodes [training_model_node])
   \<and> converting_to_onnx_create_pipeline =
       Inr (PipelineNodes [converting_model_node, validating_model_node])
   \<and> (\<exists>s1 s2 p.
         pipeline_add fd pd = Inr s1
       \<and> pipeline_add s1 (PipelineNodes [training_model_node]) = Inr s2
       \<and> pipeline_add s2 (PipelineNodes [converting_model_node, validating_model_node]) = Inr p
       \<and> map_of m ''__default__'' = Some p
       \<and> set (nodes p) \<subseteq> set (nodes fd) \<union> set (nodes pd)
            \<union> {training_model_node, converting_model_node, validating_model_node}
       \<and> unique_key ` set (nodes p) =
            unique_key ` (set (nodes fd) \<union> set (nodes pd)
              \<union> {training_model_node, converting_model_node, validating_model_node})
       \<and> distinct (map name (nodes p)))"
proof -
  let ?tm = "PipelineNodes [training_model_node]"
  let ?cto = "PipelineNodes [converting_model_node, validating_model_node]"
  have r: "register_pipelines fd pd =
      (case pipeline_add fd pd of
         Inl e \<Rightarrow> Inl e
       | Inr s1 \<Rightarrow>
      (case pipeline_add s1 ?tm of
         Inl e \<Rightarrow> Inl e
       | Inr s2 \<Rightarrow>
      (case pipeline_add s2 ?cto of
         Inl e \<Rightarrow> Inl e
       | Inr p \<Rightarrow>
           Inr [(''__default__'', p), (''fetching_data'', fd), (''preprocessing_data'', pd),
                (''training_model'', ?tm), (''converting_to_onnx'', ?cto)])))"
    by (simp only: register_pipelines_def Let_def training_model_pipeline
        converting_to_onnx_pipeline sum.case)
  obtain s1 where a1: "pipeline_add fd pd = Inr s1"
    using assms unfolding r by (cases "pipeline_add fd pd") simp_all
  obtain s2 where a2: "pipeline_add s1 ?tm = Inr s2"
    using assms unfolding r a1 sum.case by (cases "pipeline_add s1 ?tm") simp_all
  obtain p where a3: "pipeline_add s2 ?cto = Inr p"
    using assms unfolding r a1 a2 sum.case by (cases "pipeline_add s2 ?cto") simp_all
  from assms have m: "m = [(''__default__'', p), (''fetching_data'', fd),
      (''preprocessing_data'', pd), (''training_model'', ?tm), (''converting_to_onnx'', ?cto)]"
    unfolding r a1 a2 a3 sum.case by simp
  have keys: "map fst m =
     [''__default__'', ''fetching_data'', ''preprocessing_data'', ''training_model'',
      ''converting_to_onnx'']" by (simp add: m)
  have "dom (map_of m) = set (map fst m)" by (simp add: dom_map_of_conv_image_fst)
  then have d: "dom (map_of m) =
       {''__default__'', ''fetching_data'', ''preprocessing_data'', ''training_model'',
        ''converting_to_onnx''}" by (simp only: keys) simp
  have dist: "distinct (map fst m)" by (simp only: keys) simp
  have lookups: "map_of m ''__default__'' = Some p" "map_of m ''fetching_data'' = Some fd"
    "map_of m ''preprocessing_data'' = Some pd" "map_of m ''training_model'' = Some ?tm"
    "map_of m ''converting_to_onnx'' = Some ?cto"
    by (simp_all add: m)
  note n1 = pipeline_add_Inr [OF a1] and n2 = pipeline_add_Inr [OF a2]
    and n3 = pipeline_add_Inr [OF a3]
  have sub: "set (nodes p) \<subseteq> set (nodes fd) \<union> set (nodes pd)
            \<union> {training_model_node, converting_model_node, validating_model_node}"
    using n1 n2 n3 by auto
  have "unique_key ` set (nodes p) = unique_key ` set (nodes s2) \<union> unique_key ` set (nodes ?cto)"
    using n3 by (simp add: image_Un)
  also have "unique_key ` set (nodes s2) = unique_key ` set (nodes s1) \<union> unique_key ` set (nodes ?tm)"
    using n2 by (simp add: image_Un)
  also have "unique_key ` set (nodes s1) = unique_key ` set (nodes fd) \<union> unique_key ` set (nodes pd)"
    using n1 by (simp add: image_Un)
  finally have ks: "unique_key ` set (nodes p) =
            unique_key ` (set (nodes fd) \<union> set (nodes pd)
              \<union> {training_model_node, converting_model_node, validating_model_node})"
    by (simp add: image_Un Un_assoc insert_commute)
  from n3 have dn: "distinct (map name (nodes p))" by simp
  have ex: "\<exists>s1 s2 p.
         pipeline_add fd pd = Inr s1
       \<and> pipeline_add s1 ?tm = Inr s2
       \<and> pipeline_add s2 ?cto = Inr p
       \<and> map_of m ''__default__'' = Some p
       \<and> set (nodes p) \<subseteq> set (nodes fd) \<union> set (nodes pd)
            \<union> {training_model_node, converting_model_node, validating_model_node}
       \<and> unique_key ` set (nodes p) =
            unique_key ` (set (nodes fd) \<union> set (nodes pd)
              \<union> {training_model_node, converting_model_node, validating_model_node})
       \<and> distinct (map name (nodes p))"
    using a1 a2 a3 lookups(1) sub ks dn by (intro exI conjI)
  show ?thesis
    by (intro conjI keys dist d lookups(2-5) training_model_pipeline
        converting_to_onnx_pipeline ex)
qed

theorem register_pipelines_mapping_witness:
  "register_pipelines (PipelineNodes []) (PipelineNodes []) =
     Inr [(''__default__'',
           PipelineNodes [converting_model_node, training_model_node, validating_model_node]),
          (''fetching_data'', PipelineNodes []),
          (''preprocessing_data'', PipelineNodes []),
          (''training_model'', PipelineNodes [training_model_node]),
          (''converting_to_onnx'', PipelineNodes [converting_model_node, validating_model_node])]
   \<and> dom (map_of [(''__default__'',
           PipelineNodes [converting_model_node, training_model_node, validating_model_node]),
          (''fetching_data'', PipelineNodes []),
          (''preprocessing_data'', PipelineNodes []),
          (''training_model'', PipelineNodes [training_model_node]),
          (''converting_to_onnx'', PipelineNodes [converting_model_node, validating_model_node])])
      = {''__default__'', ''fetching_data'', ''preprocessing_data'', ''training_model'',
         ''converting_to_onnx''}"
  using register_pipelines_empty
    register_pipelines_mapping [OF register_pipelines_empty, THEN conjunct2, THEN conjunct2, THEN conjunct1]
  by (rule conjI)

text \<open>
  C2, as the code has it: \<open>converting_model_node\<close> reads \<^verbatim>\<open>training_done\<close>, but the
  training node is declared with \<^verbatim>\<open>outputs=None\<close>, so no node of the training
  pipeline produces that dataset. In the default pipeline (here with empty fetching
  and preprocessing pipelines) the order conversion, validation, training respects
  every dependency, as does the order in which the pipeline lists its nodes, and in
  both the training node has not run when the conversion node runs.
\<close>

theorem training_done_not_produced:
  "''training_done'' \<in> set (inputs converting_model_node)
   \<and> outputs training_model_node = []
   \<and> training_model_create_pipeline = Inr (PipelineNodes [training_model_node])
   \<and> \<not> produces (nodes (PipelineNodes [training_model_node])) ''training_done''
   \<and> register_pipelines (PipelineNodes []) (PipelineNodes []) =
       Inr [(''__default__'',
             PipelineNodes [converting_model_node, training_model_node, validating_model_node]),
            (''fetching_data'', PipelineNodes []),
            (''preprocessing_data'', PipelineNodes []),
            (''training_model'', PipelineNodes [training_model_node]),
            (''converting_to_onnx'',
             PipelineNodes [converting_model_node, validating_model_node])]
   \<and> is_run (PipelineNodes [converting_model_node, training_model_node, validating_model_node])
       [converting_model_node, validating_model_node, training_model_node]
   \<and> \<not> runs_before training_model_node converting_model_node
       [converting_model_node, validating_model_node, training_model_node]
   \<and> is_run (PipelineNodes [converting_model_node, training_model_node, validating_model_node])
       [converting_model_node, training_model_node, validating_model_node]
   \<and> \<not> runs_before training_model_node converting_model_node
       [converting_model_node, training_model_node, validating_model_node]"
proof -
  have "''training_done'' \<in> set (inputs converting_model_node)"
    "outputs training_model_node = []"
    "\<not> produces (nodes (PipelineNodes [training_model_node])) ''training_done''"
    by (simp_all add: converting_model_node_def training_model_node_def produces_def)
  moreover have
    "is_run (PipelineNodes [converting_model_node, training_model_node, validating_model_node])
       [converting_model_node, validating_model_node, training_model_node]"
    "is_run (PipelineNodes [converting_model_node, training_model_node, validating_model_node])
       [converting_model_node, training_model_node, validating_model_node]"
    by (simp_all add: is_run_def produces_def
        converting_model_node_def validating_model_node_def training_model_node_def)
  moreover have
    "\<not> runs_before training_model_node converting_model_node
       [converting_model_node, validating_model_node, training_model_node]"
    "\<not> runs_before training_model_node converting_model_node
       [converting_model_node, training_model_node, validating_model_node]"
    by (simp_all add: runs_before_def)
  ultimately show ?thesis
    using training_model_pipeline register_pipelines_empty by blast
qed

text \<open>
  C5: \<open>validating_model_node\<close> reads \<^verbatim>\<open>conversion_done\<close> and \<^verbatim>\<open>input_sample\<close>, both
  written by \<open>converting_model_node\<close>; the converting_to_onnx pipeline is built from
  these two nodes, and in every run of it the conversion node has run when the
  validation node runs.
\<close>

theorem conversion_precedes_validation:
  "''conversion_done'' \<in> set (outputs converting_model_node)
   \<and> ''input_sample'' \<in> set (outputs converting_model_node)
   \<and> ''conversion_done'' \<in> set (inputs validating_model_node)
   \<and> ''input_sample'' \<in> set (inputs validating_model_node)
   \<and> converting_to_onnx_create_pipeline =
       Inr (PipelineNodes [converting_model_node, validating_model_node])
   \<and> (is_run (PipelineNodes [converting_model_node, validating_model_node]) order \<longrightarrow>
        runs_before converting_model_node validating_model_node order)"
proof -
  let ?all = "[converting_model_node, validating_model_node]"
  have io: "''conversion_done'' \<in> set (outputs converting_model_node)"
    "''input_sample'' \<in> set (outputs converting_model_node)"
    "''conversion_done'' \<in> set (inputs validating_model_node)"
    "''input_sample'' \<in> set (inputs validating_model_node)"
    by (simp_all add: converting_model_node_def validating_model_node_def)
  have "runs_before converting_model_node validating_model_node order"
    if run: "is_run (PipelineNodes ?all) order"
  proof -
    from run have m: "mset order = mset ?all" and d: "deps_ok ?all [] order"
      by (simp_all add: is_run_def)
    from m have "set order = set ?all" by (rule mset_eq_setD)
    then have so: "set order = {converting_model_node, validating_model_node}"
      by simp
    have p: "produces ?all ''conversion_done''"
      by (simp add: produces_def converting_model_node_def)
    have np: "\<not> produces [] ''conversion_done''" by (simp add: produces_def)
    have u: "m = converting_model_node"
      if "m \<in> set order" "''conversion_done'' \<in> set (outputs m)" for m
      using that so by (auto simp: validating_model_node_def)
    from so have b: "validating_model_node \<in> set order" by simp
    show ?thesis
      by (rule deps_ok_producer_first [OF d b io(3) p np u])
  qed
  with io converting_to_onnx_pipeline show ?thesis by blast
qed

theorem conversion_precedes_validation_witness:
  "is_run (PipelineNodes [converting_model_node, validating_model_node])
      [converting_model_node, validating_model_node]
   \<and> runs_before converting_model_node validating_model_node
       [converting_model_node, validating_model_node]"
proof -
  have "is_run (PipelineNodes [converting_model_node, validating_model_node])
          [converting_model_node, validating_model_node]"
    by (simp add: is_run_def produces_def converting_model_node_def validating_model_node_def)
  with conversion_precedes_validation [of "[converting_model_node, validating_model_node]"]
  show ?thesis by blast
qed

section \<open>Properties of the data loader\<close>

lemma visited_sequential:
  "\<not> shuffle dl \<Longrightarrow> visited perm dl = sequences (dataset dl)"
  by (simp add: visited_def sampler_def map_nth)

lemma DataLoader_Inr:
  "0 \<le> nw \<Longrightarrow> 0 < bs \<Longrightarrow>
     DataLoader ds bs sh nw = Inr \<lparr> dataset = ds, batch_size = bs, shuffle = sh, num_workers = nw \<rparr>"
  by (simp add: DataLoader_def)

lemma DataLoader_Inl:
  "nw < 0 \<or> bs \<le> 0 \<Longrightarrow> \<exists>msg. DataLoader ds bs sh nw = Inl (ValueError msg)"
  by (auto simp: DataLoader_def)

text \<open>
  C6 as stated fails where the loader cannot be built: with a train batch size of 0,
  \<open>train_dataloader\<close> raises \<^verbatim>\<open>ValueError\<close> and returns no loader.
\<close>

theorem train_dataloader_batch_size_counterexample:
  "train_dataloader
     (LSTMDataLoader_setup (LSTMDataLoader_init [10 :: nat, 20] [30] [40] 0 1 None None) None)
   = Inl (ValueError ''batch_size should be a positive integer value'')"
  by (simp add: train_dataloader_def LSTMDataLoader_setup_def LSTMDataLoader_init_def
      DataLoader_def Let_def)

text \<open>
  C6, amended: \<open>setup\<close> builds the three datasets from the stored lists of sequences,
  which it leaves as they are. After it, when the configured worker count is not
  negative and the configured batch size is positive, \<open>train_dataloader\<close> and
  \<open>val_dataloader\<close> return loaders over the train and the validation dataset, with the
  configured batch size and worker count and with shuffling off, so that a loader visits
  the sequences in the order of the stored list, whatever permutation a shuffling loader
  would have drawn; otherwise they raise \<^verbatim>\<open>ValueError\<close>.
\<close>

theorem dataloader_wraps_sequences:
  "(let d = LSTMDataLoader_setup self stage in
     train_dataset d = Some (CryptoDataset (train_sequences self))
   \<and> val_dataset d = Some (CryptoDataset (val_sequences self))
   \<and> test_dataset d = Some (CryptoDataset (test_sequences self))
   \<and> train_sequences d = train_sequences self
   \<and> val_sequences d = val_sequences self
   \<and> test_sequences d = test_sequences self
   \<and> (0 \<le> train_workers self \<and> 0 < train_batch_size self \<longrightarrow>
        (\<exists>dl. train_dataloader d = Inr dl
           \<and> dataset dl = CryptoDataset (train_sequences self)
           \<and> batch_size dl = train_batch_size self
           \<and> num_workers dl = train_workers self
           \<and> \<not> shuffle dl
           \<and> visited perm dl = train_sequences self))
   \<and> (train_workers self < 0 \<or> train_batch_size self \<le> 0 \<longrightarrow>
        (\<exists>msg. train_dataloader d = Inl (ValueError msg)))
   \<and> (0 \<le> val_workers self \<and> 0 < val_batch_size self \<longrightarrow>
        (\<exists>dl. val_dataloader d = Inr dl
           \<and> dataset dl = CryptoDataset (val_sequences self)
           \<and> batch_size dl = val_batch_size self
           \<and> num_workers dl = val_workers self
           \<and> \<not> shuffle dl
           \<and> visited perm dl = val_sequences self))
   \<and> (val_workers self < 0 \<or> val_batch_size self \<le> 0 \<longrightarrow>
        (\<exists>msg. val_dataloader d = Inl (ValueError msg))))"
proof -
  let ?d = "LSTMDataLoader_setup self stage"
  have f: "train_dataset ?d = Some (CryptoDataset (train_sequences self))"
    "val_dataset ?d = Some (CryptoDataset (val_sequences self))"
    "test_dataset ?d = Some (CryptoDataset (test_sequences self))"
    "train_sequences ?d = train_sequences self"
    "val_sequences ?d = val_sequences self"
    "test_sequences ?d = test_sequences self"
    by (simp_all add: LSTMDataLoader_setup_def)
  have t: "train_dataloader ?d =
      DataLoader (CryptoDataset (train_sequences self)) (train_batch_size self) False
        (train_workers self)"
    and v: "val_dataloader ?d =
      DataLoader (CryptoDataset (val_sequences self)) (val_batch_size self) False
        (val_workers self)"
    by (simp_all add: train_dataloader_def val_dataloader_def LSTMDataLoader_setup_def)
  have t1: "\<exists>dl. train_dataloader ?d = Inr dl
           \<and> dataset dl = CryptoDataset (train_sequences self)
           \<and> batch_size dl = train_batch_size self
           \<and> num_workers dl = train_workers self
           \<and> \<not> shuffle dl
           \<and> visited perm dl = train_sequences self"
    if "0 \<le> train_workers self \<and> 0 < train_batch_size self"
    using that by (simp add: t DataLoader_Inr visited_sequential)
  have t2: "\<exists>msg. train_dataloader ?d = Inl (ValueError msg)"
    if "train_workers self < 0 \<or> train_batch_size self \<le> 0"
    unfolding t using that by (rule DataLoader_Inl)
  have v1: "\<exists>dl. val_dataloader ?d = Inr dl
           \<and> dataset dl = CryptoDataset (val_sequences self)
           \<and> batch_size dl = val_batch_size self
           \<and> num_workers dl = val_workers self
           \<and> \<not> shuffle dl
           \<and> visited perm dl = val_sequences self"
    if "0 \<le> val_workers self \<and> 0 < val_batch_size self"
    using that by (simp add: v DataLoader_Inr visited_sequential)
  have v2: "\<exists>msg. val_dataloader ?d = Inl (ValueError msg)"
    if "val_workers self < 0 \<or> val_batch_size self \<le> 0"
    unfolding v using that by (rule DataLoader_Inl)
  show ?thesis
    unfolding Let_def using f t1 t2 v1 v2 by (intro conjI impI) simp_all
qed

text \<open>
  C7 as stated fails where the loader cannot be built: with a validation batch size of
  0, \<open>test_dataloader\<close> raises \<^verbatim>\<open>ValueError\<close> and returns no loader.
\<close>

theorem test_dataloader_batch_size_counterexample:
  "test_dataloader
     (LSTMDataLoader_setup (LSTMDataLoader_init [10 :: nat, 20] [30] [40] 1 0 None None) None)
   = Inl (ValueError ''batch_size should be a positive integer value'')"
  by (simp add: test_dataloader_def LSTMDataLoader_setup_def LSTMDataLoader_init_def
      DataLoader_def Let_def)

text \<open>
  C7, amended: for a data loader built by the constructor, on which \<open>setup\<close> has run,
  \<open>test_workers\<close> equals \<open>val_workers\<close>; when \<open>val_workers\<close> is not negative and
  \<open>val_batch_size\<close> is positive, \<open>test_dataloader\<close> returns a loader over the test
  dataset whose batch size is \<open>val_batch_size\<close> and whose worker count is
  \<open>val_workers\<close>, and otherwise it raises \<^verbatim>\<open>ValueError\<close>; the constructor takes no
  batch size or worker count for the test set.
\<close>

theorem test_dataloader_uses_val_settings:
  "(let d = LSTMDataLoader_setup
             (LSTMDataLoader_init train_seqs val_seqs test_seqs train_bs val_bs train_w val_w)
             stage in
     val_batch_size d = val_bs
   \<and> val_workers d = (case val_w of None \<Rightarrow> 1 | Some n \<Rightarrow> n)
   \<and> test_workers d = val_workers d
   \<and> (0 \<le> val_workers d \<and> 0 < val_batch_size d \<longrightarrow>
        (\<exists>dl. test_dataloader d = Inr dl
           \<and> dataset dl = CryptoDataset test_seqs
           \<and> batch_size dl = val_batch_size d
           \<and> num_workers dl = val_workers d
           \<and> \<not> shuffle dl))
   \<and> (val_workers d < 0 \<or> val_batch_size d \<le> 0 \<longrightarrow>
        (\<exists>msg. test_dataloader d = Inl (ValueError msg))))"
proof -
  let ?d = "LSTMDataLoader_setup
             (LSTMDataLoader_init train_seqs val_seqs test_seqs train_bs val_bs train_w val_w)
             stage"
  have f: "val_batch_size ?d = val_bs"
    "val_workers ?d = (case val_w of None \<Rightarrow> 1 | Some n \<Rightarrow> n)"
    "test_workers ?d = val_workers ?d"
    by (simp_all add: LSTMDataLoader_setup_def LSTMDataLoader_init_def Let_def)
  have t: "test_dataloader ?d =
      DataLoader (CryptoDataset test_seqs) (val_batch_size ?d) False (val_workers ?d)"
    by (simp add: test_dataloader_def LSTMDataLoader_setup_def LSTMDataLoader_init_def Let_def)
  have t1: "\<exists>dl. test_dataloader ?d = Inr dl
           \<and> dataset dl = CryptoDataset test_seqs
           \<and> batch_size dl = val_batch_size ?d
           \<and> num_workers dl = val_workers ?d
           \<and> \<not> shuffle dl"
    if "0 \<le> val_workers ?d \<and> 0 < val_batch_size ?d"
    using that by (simp only: t) (simp add: DataLoader_Inr)
  have t2: "\<exists>msg. test_dataloader ?d = Inl (ValueError msg)"
    if "val_workers ?d < 0 \<or> val_batch_size ?d \<le> 0"
    unfolding t using that by (rule DataLoader_Inl)
  show ?thesis
    unfolding Let_def using f t1 t2 by (intro conjI impI) simp_all
qed

theorem dataloader_wraps_sequences_witness:
  "(\<exists>dl. train_dataloader
           (LSTMDataLoader_setup (LSTMDataLoader_init [10 :: nat, 20] [30] [40] 2 1 None None) None)
         = Inr dl
       \<and> dataset dl = CryptoDataset [10, 20] \<and> batch_size dl = 2 \<and> num_workers dl = 2
       \<and> \<not> shuffle dl \<and> visited rev dl = [10, 20])
   \<and> (\<exists>dl. val_dataloader
           (LSTMDataLoader_setup (LSTMDataLoader_init [10 :: nat, 20] [30] [40] 2 1 None None) None)
         = Inr dl
       \<and> dataset dl = CryptoDataset [30] \<and> batch_size dl = 1 \<and> num_workers dl = 1
       \<and> \<not> shuffle dl \<and> visited rev dl = [30])
   \<and> (\<exists>msg. train_dataloader
           (LSTMDataLoader_setup
              (LSTMDataLoader_init [10 :: nat, 20] [30] [40] 0 1 None (Some (- 1))) None)
         = Inl (ValueError msg))
   \<and> (\<exists>msg. val_dataloader
           (LSTMDataLoader_setup
              (LSTMDataLoader_init [10 :: nat, 20] [30] [40] 0 1 None (Some (- 1))) None)
         = Inl (ValueError msg))"
proof -
  let ?a = "LSTMDataLoader_init [10 :: nat, 20] [30] [40] 2 1 None None"
  let ?b = "LSTMDataLoader_init [10 :: nat, 20] [30] [40] 0 1 None (Some (- 1))"
  have fa: "train_sequences ?a = [10, 20]" "val_sequences ?a = [30]"
    "train_batch_size ?a = 2" "val_batch_size ?a = 1" "train_workers ?a = 2" "val_workers ?a = 1"
    by (simp_all add: LSTMDataLoader_init_def Let_def)
  have ha: "0 \<le> train_workers ?a \<and> 0 < train_batch_size ?a"
    and hav: "0 \<le> val_workers ?a \<and> 0 < val_batch_size ?a"
    by (simp_all add: fa)
  have hb: "train_workers ?b < 0 \<or> train_batch_size ?b \<le> 0"
    and hbv: "val_workers ?b < 0 \<or> val_batch_size ?b \<le> 0"
    by (simp_all add: LSTMDataLoader_init_def Let_def)
  note ta = dataloader_wraps_sequences [of ?a None rev, unfolded Let_def]
  note tb = dataloader_wraps_sequences [of ?b None rev, unfolded Let_def]
  note rest = conjunct2 [THEN conjunct2, THEN conjunct2, THEN conjunct2, THEN conjunct2,
      THEN conjunct2]
  from ta [THEN rest, THEN conjunct1, THEN mp, OF ha]
  have 1: "\<exists>dl. train_dataloader (LSTMDataLoader_setup ?a None) = Inr dl
       \<and> dataset dl = CryptoDataset [10, 20] \<and> batch_size dl = 2 \<and> num_workers dl = 2
       \<and> \<not> shuffle dl \<and> visited rev dl = [10, 20]"
    by (simp only: fa)
  from ta [THEN rest, THEN conjunct2, THEN conjunct2, THEN conjunct1, THEN mp, OF hav]
  have 2: "\<exists>dl. val_dataloader (LSTMDataLoader_setup ?a None) = Inr dl
       \<and> dataset dl = CryptoDataset [30] \<and> batch_size dl = 1 \<and> num_workers dl = 1
       \<and> \<not> shuffle dl \<and> visited rev dl = [30]"
    by (simp only: fa)
  note 3 = tb [THEN rest, THEN conjunct2, THEN conjunct1, THEN mp, OF hb]
  note 4 = tb [THEN rest, THEN conjunct2, THEN conjunct2, THEN conjunct2, THEN mp, OF hbv]
  from 1 2 3 4 show ?thesis by (intro conjI)
qed

theorem test_dataloader_uses_val_settings_witness:
  "(\<exists>dl. test_dataloader
           (LSTMDataLoader_setup (LSTMDataLoader_init [10 :: nat, 20] [30] [40] 2 5 None None) None)
         = Inr dl
       \<and> dataset dl = CryptoDataset [40] \<and> batch_size dl = 5 \<and> num_workers dl = 1
       \<and> \<not> shuffle dl)
   \<and> (\<exists>msg. test_dataloader
           (LSTMDataLoader_setup
              (LSTMDataLoader_init [10 :: nat, 20] [30] [40] 2 5 None (Some (- 1))) None)
         = Inl (ValueError msg))"
proof -
  let ?a = "LSTMDataLoader_setup (LSTMDataLoader_init [10 :: nat, 20] [30] [40] 2 5 None None) None"
  let ?b = "LSTMDataLoader_setup
              (LSTMDataLoader_init [10 :: nat, 20] [30] [40] 2 5 None (Some (- 1))) None"
  have fa: "val_batch_size ?a = 5" "val_workers ?a = 1"
    by (simp_all add: LSTMDataLoader_setup_def LSTMDataLoader_init_def Let_def)
  have ha: "0 \<le> val_workers ?a \<and> 0 < val_batch_size ?a" by (simp add: fa)
  have hb: "val_workers ?b < 0 \<or> val_batch_size ?b \<le> 0"
    by (simp add: LSTMDataLoader_setup_def LSTMDataLoader_init_def Let_def)
  note ta = test_dataloader_uses_val_settings [of "[10 :: nat, 20]" "[30]" "[40]" 2 5 None None None, unfolded Let_def]
  note tb = test_dataloader_uses_val_settings [of "[10 :: nat, 20]" "[30]" "[40]" 2 5 None "Some (- 1)" None, unfolded Let_def]
  note rest = conjunct2 [THEN conjunct2, THEN conjunct2]
  from ta [THEN rest, THEN conjunct1, THEN mp, OF ha]
  have 1: "\<exists>dl. test_dataloader ?a = Inr dl
       \<and> dataset dl = CryptoDataset [40] \<and> batch_size dl = 5 \<and> num_workers dl = 1
       \<and> \<not> shuffle dl"
    by (simp only: fa)
  note 2 = tb [THEN rest, THEN conjunct2, THEN mp, OF hb]
  from 1 2 show ?thesis by (intro conjI)
qed

section \<open>Properties of the model loader\<close>

subsection \<open>Splitting strings\<close>

lemma split_on_not_Nil: "split_on c s \<noteq> []"
proof (cases s)
  case Nil then show ?thesis by simp
next
  case (Cons x xs)
  then show ?thesis by (cases "split_on c xs") simp_all
qed

lemma length_split_on: "length (split_on c s) = Suc (count_list s c)"
proof (induction s)
  case Nil show ?case by simp
next
  case (Cons x xs)
  then show ?case by (cases "split_on c xs") (simp_all add: split_on_not_Nil)
qed

lemma split_on_single: "split_on c s = [p] \<longleftrightarrow> s = p \<and> c \<notin> set p"
proof (induction s arbitrary: p)
  case Nil
  show ?case by auto
next
  case (Cons x xs)
  show ?case
  proof (cases "x = c")
    case True
    then show ?thesis by (auto simp: split_on_not_Nil)
  next
    case False
    obtain q qs where q: "split_on c xs = q # qs"
      by (cases "split_on c xs") (simp_all add: split_on_not_Nil)
    have "split_on c (x # xs) = [p] \<longleftrightarrow> (\<exists>p'. p = x # p' \<and> split_on c xs = [p'])"
      using False q by auto
    also have "\<dots> \<longleftrightarrow> (\<exists>p'. p = x # p' \<and> xs = p' \<and> c \<notin> set p')"
      by (simp only: Cons.IH)
    also have "\<dots> \<longleftrightarrow> x # xs = p \<and> c \<notin> set p"
      using False by auto
    finally show ?thesis .
  qed
qed

lemma split_on_pair: "split_on c s = [a, b] \<longleftrightarrow> s = a @ c # b \<and> c \<notin> set a \<and> c \<notin> set b"
proof (induction s arbitrary: a)
  case Nil
  show ?case by auto
next
  case (Cons x xs)
  show ?case
  proof (cases "x = c")
    case True
    have "split_on c (x # xs) = [a, b] \<longleftrightarrow> a = [] \<and> split_on c xs = [b]"
      using True by auto
    also have "\<dots> \<longleftrightarrow> a = [] \<and> xs = b \<and> c \<notin> set b"
      by (simp only: split_on_single)
    also have "\<dots> \<longleftrightarrow> x # xs = a @ c # b \<and> c \<notin> set a \<and> c \<notin> set b"
      using True by (cases a) auto
    finally show ?thesis .
  next
    case False
    obtain q qs where q: "split_on c xs = q # qs"
      by (cases "split_on c xs") (simp_all add: split_on_not_Nil)
    have "split_on c (x # xs) = [a, b] \<longleftrightarrow> (\<exists>a'. a = x # a' \<and> split_on c xs = [a', b])"
      using False q by auto
    also have "\<dots> \<longleftrightarrow> (\<exists>a'. a = x # a' \<and> xs = a' @ c # b \<and> c \<notin> set a' \<and> c \<notin> set b)"
      by (simp only: Cons.IH)
    also have "\<dots> \<longleftrightarrow> x # xs = a @ c # b \<and> c \<notin> set a \<and> c \<notin> set b"
      using False by (cases a) auto
    finally show ?thesis .
  qed
qed

lemma unpack2_Inr: "unpack2 xs = Inr (a, b) \<longleftrightarrow> xs = [a, b]"
  by (auto simp: unpack2_def split: list.splits)

lemma unpack2_Inl: "length xs \<noteq> 2 \<Longrightarrow> \<exists>msg. unpack2 xs = Inl (ValueError msg)"
  by (auto simp: unpack2_def split: list.splits)

lemma length_two: "length xs = 2 \<longleftrightarrow> (\<exists>a b. xs = [a, b])"
  by (cases xs; simp; cases "tl xs"; auto)

subsection \<open>What a download and the loop change\<close>

lemma fget_object_frame:
  assumes "fget_object w b obj p = (r, w')"
  shows "buckets w' = buckets w \<and> dirs w' = dirs w \<and> today w' = today w
    \<and> valid_bucket_name w' = valid_bucket_name w"
  using assms by (auto simp: fget_object_def split: option.splits if_splits)

lemma fget_object_Inl:
  assumes "fget_object w b obj p = (Inl e, w')"
  shows "w' = w"
  using assms by (auto simp: fget_object_def split: option.splits if_splits)

lemma fget_object_Inr:
  assumes "fget_object w b obj p = (Inr u, w')"
  shows "fetched w' = fetched w @ [(b, obj, p)] \<and> (\<exists>objs. buckets w b = Some objs \<and> obj \<in> set objs)"
  using assms by (auto simp: fget_object_def split: option.splits if_splits)

lemma makedir_frame:
  assumes "makedir self w currency compare = (r, w')"
  shows "buckets w' = buckets w \<and> fetched w' = fetched w \<and> today w' = today w
    \<and> valid_bucket_name w' = valid_bucket_name w"
  using assms by (auto simp: makedir_def split: if_splits)

lemma download_files_Inr:
  assumes "download_files self w currency compare = (Inr u, w')"
  shows "fetched w' = fetched w @
     [(bucket self, date self @ ''/'' @ currency @ ''_'' @ compare @ ''/model.onnx'',
       storage_path self @ ''/'' @ currency @ ''_'' @ compare @ ''/model.onnx''),
      (bucket self, date self @ ''/'' @ currency @ ''_'' @ compare @ ''/scaler.pkl'',
       storage_path self @ ''/'' @ currency @ ''_'' @ compare @ ''/scaler.pkl'')]"
proof -
  from assms obtain u1 w1 u2 w2 where
    m: "makedir self w currency compare = (Inr u1, w1)" and
    f1: "fget_object w1 (bucket self)
           (date self @ ''/'' @ currency @ ''_'' @ compare @ ''/model.onnx'')
           (storage_path self @ ''/'' @ currency @ ''_'' @ compare @ ''/model.onnx'') = (Inr u2, w2)" and
    f2: "fget_object w2 (bucket self)
           (date self @ ''/'' @ currency @ ''_'' @ compare @ ''/scaler.pkl'')
           (storage_path self @ ''/'' @ currency @ ''_'' @ compare @ ''/scaler.pkl'') = (Inr u, w')"
    by (auto simp: download_files_def split: prod.splits sum.splits)
  from makedir_frame [OF m] fget_object_Inr [OF f1] fget_object_Inr [OF f2]
  show ?thesis by simp
qed

lemma download_files_frame:
  assumes "download_files self w currency compare = (r, w')"
  shows "buckets w' = buckets w \<and> today w' = today w
    \<and> (\<exists>new. fetched w' = fetched w @ new \<and> list_all (from_date self) new)"
proof (cases "makedir self w currency compare")
  case (Pair r1 w1)
  note m = makedir_frame [OF Pair]
  show ?thesis
  proof (cases r1)
    case (Inl e)
    with Pair assms m show ?thesis by (simp add: download_files_def)
  next
    case (Inr u1)
    let ?o1 = "date self @ ''/'' @ currency @ ''_'' @ compare @ ''/model.onnx''"
    let ?p1 = "storage_path self @ ''/'' @ currency @ ''_'' @ compare @ ''/model.onnx''"
    let ?o2 = "date self @ ''/'' @ currency @ ''_'' @ compare @ ''/scaler.pkl''"
    let ?p2 = "storage_path self @ ''/'' @ currency @ ''_'' @ compare @ ''/scaler.pkl''"
    obtain r2 w2 where f1: "fget_object w1 (bucket self) ?o1 ?p1 = (r2, w2)"
      by (cases "fget_object w1 (bucket self) ?o1 ?p1")
    note fr1 = fget_object_frame [OF f1]
    show ?thesis
    proof (cases r2)
      case (Inl e)
      with f1 have "w2 = w1" by (simp add: fget_object_Inl)
      moreover from Pair \<open>r1 = Inr u1\<close> f1 Inl assms have "w' = w2"
        by (simp add: download_files_def)
      ultimately show ?thesis using m by simp
    next
      case (Inr u2)
      with f1 have a1: "fetched w2 = fetched w1 @ [(bucket self, ?o1, ?p1)]"
        by (simp add: fget_object_Inr)
      from Pair \<open>r1 = Inr u1\<close> f1 Inr assms
      have f2: "fget_object w2 (bucket self) ?o2 ?p2 = (r, w')"
        by (simp add: download_files_def)
      note fr2 = fget_object_frame [OF f2]
      have d1: "from_date self (bucket self, ?o1, ?p1)"
        and d2: "from_date self (bucket self, ?o2, ?p2)"
        by (simp_all add: from_date_def)
      show ?thesis
      proof (cases r)
        case (Inl e)
        with f2 have "w' = w2" by (simp add: fget_object_Inl)
        with a1 m fr1 d1 show ?thesis by simp
      next
        case (Inr u3)
        with f2 have "fetched w' = fetched w2 @ [(bucket self, ?o2, ?p2)]"
          by (simp add: fget_object_Inr)
        note a2 = this
        define new where "new = [(bucket self, ?o1, ?p1), (bucket self, ?o2, ?p2)]"
        with a1 a2 m fr1 fr2 have "fetched w' = fetched w @ new"
          by simp
        moreover have "list_all (from_date self) new"
          using d1 d2 by (simp add: new_def)
        moreover have "buckets w' = buckets w" "today w' = today w"
          using m fr1 fr2 by simp_all
        ultimately show ?thesis by blast
      qed
    qed
  qed
qed

lemma download_files_valid:
  assumes "download_files self w currency compare = (r, w')"
  shows "valid_bucket_name w' = valid_bucket_name w"
proof (cases "makedir self w currency compare")
  case (Pair r1 w1)
  note m = makedir_frame [OF Pair]
  show ?thesis
  proof (cases r1)
    case (Inl e)
    with Pair assms m show ?thesis by (simp add: download_files_def)
  next
    case (Inr u1)
    let ?o1 = "date self @ ''/'' @ currency @ ''_'' @ compare @ ''/model.onnx''"
    let ?p1 = "storage_path self @ ''/'' @ currency @ ''_'' @ compare @ ''/model.onnx''"
    let ?o2 = "date self @ ''/'' @ currency @ ''_'' @ compare @ ''/scaler.pkl''"
    let ?p2 = "storage_path self @ ''/'' @ currency @ ''_'' @ compare @ ''/scaler.pkl''"
    obtain r2 w2 where f1: "fget_object w1 (bucket self) ?o1 ?p1 = (r2, w2)"
      by (cases "fget_object w1 (bucket self) ?o1 ?p1")
    note fr1 = fget_object_frame [OF f1]
    show ?thesis
    proof (cases r2)
      case (Inl e)
      with Pair \<open>r1 = Inr u1\<close> f1 assms have "w' = w2" by (simp add: download_files_def)
      with m fr1 show ?thesis by simp
    next
      case (Inr u2)
      with Pair \<open>r1 = Inr u1\<close> f1 assms
      have "fget_object w2 (bucket self) ?o2 ?p2 = (r, w')" by (simp add: download_files_def)
      from fget_object_frame [OF this] m fr1 show ?thesis by simp
    qed
  qed
qed

lemma add_model_fields:
  "bucket (add_model_to_session_models self currency compare) = bucket self"
  "date (add_model_to_session_models self currency compare) = date self"
  "storage_path (add_model_to_session_models self currency compare) = storage_path self"
  "session_models (add_model_to_session_models self currency compare) =
     (session_models self)(currency @ ''_'' @ compare \<mapsto> entry_for self (currency @ ''_'' @ compare))"
  by (simp_all add: add_model_to_session_models_def get_models_files_path_def entry_for_def)

lemma unpack2_split_on:
  "unpack2 (split_on c m) = Inr (a, b) \<longleftrightarrow> m = a @ c # b \<and> c \<notin> set a \<and> c \<notin> set b"
  for c :: char
  by (simp add: unpack2_Inr split_on_pair)

lemma count_list_one:
  "count_list s c = 1 \<longleftrightarrow> (\<exists>a b. s = a @ c # b \<and> c \<notin> set a \<and> c \<notin> set b)"
  for c :: char
proof -
  have "count_list s c = 1 \<longleftrightarrow> length (split_on c s) = 2"
    by (simp add: length_split_on)
  also have "\<dots> \<longleftrightarrow> (\<exists>a b. split_on c s = [a, b])"
    by (rule length_two)
  finally show ?thesis by (simp add: split_on_pair)
qed

lemma update_loop_step:
  assumes "update_loop self w (m # ms) = (r, self', w')"
  shows "(\<exists>e. r = Inl e \<and> self' = self \<and> w' = w \<and> unpack2 (split_on CHR ''_'' m) = Inl e)
    \<or> (\<exists>e currency compare. r = Inl e \<and> self' = self
          \<and> unpack2 (split_on CHR ''_'' m) = Inr (currency, compare)
          \<and> download_files self w currency compare = (Inl e, w'))
    \<or> (\<exists>u currency compare w1.
          unpack2 (split_on CHR ''_'' m) = Inr (currency, compare)
          \<and> download_files self w currency compare = (Inr u, w1)
          \<and> update_loop (add_model_to_session_models self currency compare) w1 ms = (r, self', w'))"
  using assms by (auto split: sum.splits prod.splits)

lemma update_loop_frame:
  assumes "update_loop self w ms = (r, self', w')"
  shows "bucket self' = bucket self \<and> date self' = date self
    \<and> storage_path self' = storage_path self
    \<and> buckets w' = buckets w \<and> today w' = today w
    \<and> valid_bucket_name w' = valid_bucket_name w
    \<and> (\<exists>new. fetched w' = fetched w @ new \<and> list_all (from_date self) new)"
  using assms
proof (induction ms arbitrary: self w)
  case Nil
  then show ?case by simp
next
  case (Cons m ms)
  from update_loop_step [OF Cons.prems] show ?case
  proof (elim disjE exE conjE)
    fix e assume "self' = self" "w' = w"
    then show ?thesis by simp
  next
    fix e currency compare
    assume "self' = self" and d: "download_files self w currency compare = (Inl e, w')"
    with download_files_frame [OF d] download_files_valid [OF d] show ?thesis by simp
  next
    fix u currency compare w1
    assume d: "download_files self w currency compare = (Inr u, w1)"
      and l: "update_loop (add_model_to_session_models self currency compare) w1 ms = (r, self', w')"
    let ?s1 = "add_model_to_session_models self currency compare"
    from download_files_frame [OF d] obtain new1 where
      f1: "buckets w1 = buckets w" "today w1 = today w" "fetched w1 = fetched w @ new1"
          "list_all (from_date self) new1" by blast
    note v1 = download_files_valid [OF d]
    from Cons.IH [OF l] obtain new2 where
      f2: "bucket self' = bucket ?s1" "date self' = date ?s1"
          "storage_path self' = storage_path ?s1"
          "buckets w' = buckets w1" "today w' = today w1"
          "valid_bucket_name w' = valid_bucket_name w1"
          "fetched w' = fetched w1 @ new2" "list_all (from_date ?s1) new2" by blast
    have "from_date ?s1 = from_date self"
      by (simp add: fun_eq_iff from_date_def add_model_fields)
    with f1 f2 have "fetched w' = fetched w @ (new1 @ new2)"
      "list_all (from_date self) (new1 @ new2)" by simp_all
    then have "\<exists>new. fetched w' = fetched w @ new \<and> list_all (from_date self) new"
      by blast
    with f1 f2 v1 show ?thesis by (simp add: add_model_fields)
  qed
qed

lemma update_loop_Inr:
  assumes "update_loop self w ms = (Inr u, self', w')"
  shows "(\<forall>n. session_models self' n =
            (if n \<in> set ms then Some (entry_for self n) else session_models self n))
    \<and> (\<forall>n \<in> set ms. count_list n CHR ''_'' = 1
          \<and> set (fetched_for self n) \<subseteq> set (fetched w'))"
  using assms
proof (induction ms arbitrary: self w)
  case Nil
  then show ?case by simp
next
  case (Cons m ms)
  from update_loop_step [OF Cons.prems] obtain u1 currency compare w1 where
    un: "unpack2 (split_on CHR ''_'' m) = Inr (currency, compare)" and
    d: "download_files self w currency compare = (Inr u1, w1)" and
    l: "update_loop (add_model_to_session_models self currency compare) w1 ms = (Inr u, self', w')"
    by auto
  let ?s1 = "add_model_to_session_models self currency compare"
  from un have m: "m = currency @ ''_'' @ compare"
    and cnt: "count_list m CHR ''_'' = 1"
    by (auto simp: unpack2_split_on count_list_one)
  have e1: "entry_for ?s1 = entry_for self"
    by (simp add: fun_eq_iff entry_for_def add_model_fields)
  have ff: "fetched_for ?s1 = fetched_for self"
    by (simp add: fun_eq_iff fetched_for_def add_model_fields)
  from download_files_Inr [OF d] have fm: "fetched w1 = fetched w @ fetched_for self m"
    by (simp add: fetched_for_def m)
  from update_loop_frame [OF l] obtain new where "fetched w' = fetched w1 @ new" by blast
  with fm have sub: "set (fetched_for self m) \<subseteq> set (fetched w')" by auto
  from Cons.IH [OF l] have
    ih1: "\<And>n. session_models self' n =
            (if n \<in> set ms then Some (entry_for self n) else session_models ?s1 n)"
    and ih2: "\<And>n. n \<in> set ms \<Longrightarrow> count_list n CHR ''_'' = 1
          \<and> set (fetched_for self n) \<subseteq> set (fetched w')"
    by (simp_all add: e1 ff)
  from m have key: "currency @ CHR ''_'' # compare = m" by simp
  have "session_models self' n =
          (if n \<in> set (m # ms) then Some (entry_for self n) else session_models self n)" for n
    by (simp add: ih1 add_model_fields key)
  moreover have "count_list n CHR ''_'' = 1 \<and> set (fetched_for self n) \<subseteq> set (fetched w')"
    if "n \<in> set (m # ms)" for n
    using that cnt sub ih2 by auto
  ultimately show ?case by blast
qed

subsection \<open>The loader\<close>


lemma list_all2_set2: "list_all2 P xs ys \<Longrightarrow> y \<in> set ys \<Longrightarrow> \<exists>x \<in> set xs. P x y"
  by (induction rule: list_all2_induct) auto

lemma second_parts_Inr:
  assumes "second_parts objs = Inr names"
  shows "list_all2 (\<lambda>obj n. index1 (split_on CHR ''/'' obj) = Inr n) objs names"
  using assms
proof (induction objs arbitrary: names)
  case Nil
  then show ?case by simp
next
  case (Cons obj objs)
  then show ?case by (auto split: sum.splits)
qed

lemma get_list_Inr:
  assumes "get_list_of_available_models as_list self w = Inr names"
  shows "\<exists>objs ns. buckets w (bucket self) = Some objs
    \<and> list_all2 (\<lambda>obj n. index1 (split_on CHR ''/'' obj) = Inr n)
         (filter (prefix (date self)) objs) ns
    \<and> names = as_list ns"
proof -
  from assms obtain objs ns where o: "buckets w (bucket self) = Some objs"
    and s: "second_parts (filter (prefix (date self)) objs) = Inr ns"
    and n: "names = as_list ns"
    by (auto simp: get_list_of_available_models_def list_objects_def
        split: option.splits sum.splits if_splits)
  from o second_parts_Inr [OF s] n show ?thesis by blast
qed


text \<open>
  C3: when \<open>model_name\<close> is a key of \<open>session_models\<close>, \<open>get_predictions\<close> returns what
  the model stored under it predicts on the sample; when it is not, it raises
  \<^verbatim>\<open>ValueError("Model not found in session.")\<close>. The loader, and with it
  \<open>session_models\<close>, is unchanged in both cases.
\<close>

theorem get_predictions_cached_or_error:
  "(model_name \<in> dom (session_models self) \<longrightarrow>
      (\<exists>entry. session_models self model_name = Some entry
         \<and> get_predictions predict self model_name sample = (predict (model entry) sample, self)))
   \<and> (model_name \<notin> dom (session_models self) \<longrightarrow>
        get_predictions predict self model_name sample =
          (Inl (ValueError ''Model not found in session.''), self))"
  by (auto simp: get_predictions_def check_model_exists_in_session_def)

text \<open>
  C8: when \<open>update_model_files\<close> succeeds, every name returned by
  \<open>get_list_of_available_models\<close> has exactly one underscore. The destructuring of
  \<^verbatim>\<open>model.split("_")\<close> raises \<^verbatim>\<open>ValueError\<close> for a name whose number of underscores is
  not one, and for a name with one underscore gives the text before and the text after
  it.
\<close>

theorem update_model_files_one_underscore:
  "(update_model_files as_list self w = (Inr u, self', w') \<longrightarrow>
      (\<exists>names. get_list_of_available_models as_list self w = Inr names
         \<and> (\<forall>n \<in> set names. count_list n CHR ''_'' = 1)))
   \<and> (count_list n CHR ''_'' \<noteq> 1 \<longrightarrow>
        (\<exists>msg. unpack2 (split_on CHR ''_'' n) = Inl (ValueError msg)))
   \<and> (count_list n CHR ''_'' = 1 \<longrightarrow>
        (\<exists>currency compare. unpack2 (split_on CHR ''_'' n) = Inr (currency, compare)
           \<and> n = currency @ ''_'' @ compare
           \<and> CHR ''_'' \<notin> set currency \<and> CHR ''_'' \<notin> set compare))"
proof (intro conjI impI)
  assume a: "update_model_files as_list self w = (Inr u, self', w')"
  then obtain names where g: "get_list_of_available_models as_list self w = Inr names"
    and l: "update_loop self w names = (Inr u, self', w')"
    by (auto simp: update_model_files_def split: sum.splits)
  from update_loop_Inr [OF l] have "\<forall>n \<in> set names. count_list n CHR ''_'' = 1" by simp
  with g show "\<exists>names. get_list_of_available_models as_list self w = Inr names
         \<and> (\<forall>n \<in> set names. count_list n CHR ''_'' = 1)" by simp
next
  assume "count_list n CHR ''_'' \<noteq> 1"
  then have "length (split_on CHR ''_'' n) \<noteq> 2" by (simp add: length_split_on)
  then show "\<exists>msg. unpack2 (split_on CHR ''_'' n) = Inl (ValueError msg)"
    by (rule unpack2_Inl)
next
  assume "count_list n CHR ''_'' = 1"
  then have "\<exists>a b. n = a @ CHR ''_'' # b \<and> CHR ''_'' \<notin> set a \<and> CHR ''_'' \<notin> set b"
    by (simp only: count_list_one)
  then obtain a b where "n = a @ CHR ''_'' # b" "CHR ''_'' \<notin> set a" "CHR ''_'' \<notin> set b"
    by blast
  then show "\<exists>currency compare. unpack2 (split_on CHR ''_'' n) = Inr (currency, compare)
           \<and> n = currency @ ''_'' @ compare
           \<and> CHR ''_'' \<notin> set currency \<and> CHR ''_'' \<notin> set compare"
    by (auto simp: unpack2_split_on)
qed



lemma init_invalid:
  assumes "\<not> valid_bucket_name w b"
  shows "ModelLoader_init as_list b w = (Inl (ValueError ''invalid bucket name''), w)"
  using assms by (simp add: ModelLoader_init_def bucket_exists_def)

lemma init_Inr:
  assumes "ModelLoader_init as_list b w = (Inr self, w')"
  shows "valid_bucket_name w b
    \<and> (\<exists>w1 u. w1 = (if buckets w b \<noteq> None then w else w \<lparr> buckets := (buckets w)(b \<mapsto> []) \<rparr>)
          \<and> update_model_files as_list
               \<lparr> bucket = b, session_models = Map.empty, storage_path = ''models'',
                 date = today w1 \<rparr> w1
             = (Inr u, self, w'))"
proof (cases "valid_bucket_name w b")
  case False
  with assms show ?thesis by (simp add: init_invalid)
next
  case True
  show ?thesis
  proof (cases "buckets w b")
    case None
    with assms True obtain w1 where mb: "make_bucket w b = (Inr (), w1)"
      by (cases "make_bucket w b")
        (auto simp: ModelLoader_init_def bucket_exists_def split: sum.splits)
    then have w1: "w1 = w \<lparr> buckets := (buckets w)(b \<mapsto> []) \<rparr>"
      using None by (auto simp: make_bucket_def split: if_splits)
    from assms True None mb show ?thesis
      by (auto simp: ModelLoader_init_def bucket_exists_def update_date_def w1
          split: prod.splits sum.splits)
  next
    case (Some objs)
    with assms True show ?thesis
      by (auto simp: ModelLoader_init_def bucket_exists_def update_date_def
          split: prod.splits sum.splits)
  qed
qed


lemma update_loop_others:
  assumes "update_loop self w ms = (r, self', w')" and "n \<notin> set ms"
  shows "session_models self' n = session_models self n"
  using assms
proof (induction ms arbitrary: self w)
  case Nil
  then show ?case by simp
next
  case (Cons m ms)
  from update_loop_step [OF Cons.prems(1)] show ?case
  proof (elim disjE exE conjE)
    fix u currency compare w1
    assume un: "unpack2 (split_on CHR ''_'' m) = Inr (currency, compare)"
      and l: "update_loop (add_model_to_session_models self currency compare) w1 ms = (r, self', w')"
    from un have "currency @ CHR ''_'' # compare = m" by (simp add: unpack2_split_on)
    with Cons.prems(2) have "n \<noteq> currency @ CHR ''_'' # compare" by auto
    with Cons.IH [OF l] Cons.prems(2) show ?thesis by (simp add: add_model_fields)
  qed simp_all
qed

lemma same_length_prefix:
  assumes "length d = length dt" and "prefix dt (d @ rest)"
  shows "d = dt"
  using assms by (auto simp: prefix_def)

text \<open>
  C9: \<^verbatim>\<open>__init__\<close> leaves the date of the loader equal to the current date, which
  \<open>update_date\<close> assigns; every listed model name comes from an object whose name starts
  with the date; every download made by \<open>download_files\<close> and by \<open>update_model_files\<close>
  is from an object under the directory of that date; \<open>update_model_files\<close>,
  \<open>add_model_to_session_models\<close> and \<open>get_predictions\<close> leave the date as it is, and
  \<open>update_model_files\<close> changes the entries of listed names only. Hence an object
  stored under another date of the same length is neither listed nor downloaded.
\<close>

theorem loader_pinned_to_date:
  assumes ord: "\<And>xs. set (as_list xs) = set xs"
  shows "(ModelLoader_init as_list b w = (Inr self0, w0) \<longrightarrow> date self0 = today w)
   \<and> date (update_date self w) = today w
   \<and> (get_list_of_available_models as_list self w = Inr names \<longrightarrow>
        (\<forall>n \<in> set names. \<exists>objs obj. buckets w (bucket self) = Some objs \<and> obj \<in> set objs
            \<and> prefix (date self) obj \<and> index1 (split_on CHR ''/'' obj) = Inr n))
   \<and> (download_files self w currency compare = (r1, w1) \<longrightarrow>
        (\<exists>new. fetched w1 = fetched w @ new \<and> list_all (from_date self) new))
   \<and> (update_model_files as_list self w = (r2, self2, w2) \<longrightarrow>
        date self2 = date self
        \<and> (\<exists>new. fetched w2 = fetched w @ new \<and> list_all (from_date self) new)
        \<and> (\<forall>n. session_models self2 n \<noteq> session_models self n \<longrightarrow>
              (\<exists>listed. get_list_of_available_models as_list self w = Inr listed
                 \<and> n \<in> set listed)))
   \<and> date (add_model_to_session_models self currency compare) = date self
   \<and> snd (get_predictions predict self model_name sample) = self
   \<and> (length d = length (date self) \<and> d \<noteq> date self \<longrightarrow>
        \<not> prefix (date self) (d @ ''/'' @ rest)
        \<and> \<not> from_date self (bk, d @ ''/'' @ rest, file_path))"
proof -
  have c1: "date self0 = today w" if "ModelLoader_init as_list b w = (Inr self0, w0)"
  proof -
    from init_Inr [OF that] obtain w1 u where
      w1: "w1 = (if buckets w b \<noteq> None then w else w \<lparr> buckets := (buckets w)(b \<mapsto> []) \<rparr>)"
      and up: "update_model_files as_list
         \<lparr> bucket = b, session_models = Map.empty, storage_path = ''models'', date = today w1 \<rparr> w1
         = (Inr u, self0, w0)" by blast
    from up obtain ms where "update_loop
         \<lparr> bucket = b, session_models = Map.empty, storage_path = ''models'', date = today w1 \<rparr> w1 ms
         = (Inr u, self0, w0)"
      by (auto simp: update_model_files_def split: sum.splits)
    from update_loop_frame [OF this] w1 show ?thesis by simp
  qed
  have c2: "date (update_date self w) = today w" by (simp add: update_date_def)
  have c3: "\<forall>n \<in> set names. \<exists>objs obj. buckets w (bucket self) = Some objs \<and> obj \<in> set objs
            \<and> prefix (date self) obj \<and> index1 (split_on CHR ''/'' obj) = Inr n"
    if "get_list_of_available_models as_list self w = Inr names"
  proof
    fix n assume n: "n \<in> set names"
    from get_list_Inr [OF that] obtain objs ns where
      o: "buckets w (bucket self) = Some objs" and
      la: "list_all2 (\<lambda>obj n. index1 (split_on CHR ''/'' obj) = Inr n)
             (filter (prefix (date self)) objs) ns" and nm: "names = as_list ns"
      by blast
    from n nm ord have "n \<in> set ns" by simp
    from list_all2_set2 [OF la this] obtain obj where
      "obj \<in> set (filter (prefix (date self)) objs)" "index1 (split_on CHR ''/'' obj) = Inr n"
      by blast
    with o show "\<exists>objs obj. buckets w (bucket self) = Some objs \<and> obj \<in> set objs
            \<and> prefix (date self) obj \<and> index1 (split_on CHR ''/'' obj) = Inr n"
      by auto
  qed
  have c4: "\<exists>new. fetched w1 = fetched w @ new \<and> list_all (from_date self) new"
    if "download_files self w currency compare = (r1, w1)"
    using download_files_frame [OF that] by simp
  have c5: "date self2 = date self
        \<and> (\<exists>new. fetched w2 = fetched w @ new \<and> list_all (from_date self) new)
        \<and> (\<forall>n. session_models self2 n \<noteq> session_models self n \<longrightarrow>
              (\<exists>listed. get_list_of_available_models as_list self w = Inr listed
                 \<and> n \<in> set listed))"
    if up: "update_model_files as_list self w = (r2, self2, w2)"
  proof (cases "get_list_of_available_models as_list self w")
    case (Inl e)
    with up have "self2 = self" "w2 = w" by (simp_all add: update_model_files_def)
    then show ?thesis by simp
  next
    case (Inr listed)
    with up have l: "update_loop self w listed = (r2, self2, w2)"
      by (simp add: update_model_files_def)
    from update_loop_frame [OF l] update_loop_others [OF l] Inr show ?thesis by auto
  qed
  have c6: "date (add_model_to_session_models self currency compare) = date self"
    by (simp add: add_model_fields)
  have c7: "snd (get_predictions predict self model_name sample) = self"
    by (simp add: get_predictions_def split: option.splits)
  have c8: "\<not> prefix (date self) (d @ ''/'' @ rest)
        \<and> \<not> from_date self (bk, d @ ''/'' @ rest, file_path)"
    if "length d = length (date self) \<and> d \<noteq> date self"
  proof -
    from that have len: "length d = length (date self)" and ne: "d \<noteq> date self" by simp_all
    have "\<not> prefix (date self) (d @ ''/'' @ rest)"
      using same_length_prefix [OF len] ne by blast
    moreover have "\<not> prefix (date self @ ''/'') (d @ ''/'' @ rest)"
      using same_length_prefix [OF len, of "''/'' @ rest"] ne
      by (auto dest: append_prefixD)
    ultimately show ?thesis by (simp add: from_date_def)
  qed
  from c1 c2 c3 c4 c5 c6 c7 c8 show ?thesis by blast
qed

subsection \<open>The properties on the example storage\<close>

lemma demo_list: "get_list_of_available_models remdups
     \<lparr> bucket = ''crypto'', session_models = Map.empty, storage_path = ''models'',
       date = ''2022-03-01'' \<rparr> demo_world = Inr [''BTC_USDT'']"
  by (simp add: get_list_of_available_models_def list_objects_def demo_world_def index1_def)

lemma demo_init: "ModelLoader_init remdups ''crypto'' demo_world = (Inr demo_loader, demo_world_after)"
  by (simp add: ModelLoader_init_def bucket_exists_def update_date_def update_model_files_def
      demo_list [unfolded demo_world_def] unpack2_def Let_def download_files_def makedir_def fget_object_def
      add_model_to_session_models_def get_models_files_path_def
      demo_world_def demo_loader_def demo_world_after_def)


lemma demo_list_after:
  "get_list_of_available_models remdups demo_loader demo_world_after = Inr [''BTC_USDT'']"
  by (simp add: get_list_of_available_models_def list_objects_def demo_world_after_def
      demo_world_def demo_loader_def index1_def)

lemma demo_update:
  "update_model_files remdups (demo_loader \<lparr> session_models := Map.empty \<rparr>) demo_world =
     (Inr (), demo_loader, demo_world_after)"
  by (simp add: update_model_files_def
      demo_list [unfolded demo_world_def] unpack2_def Let_def download_files_def makedir_def
      fget_object_def add_model_to_session_models_def get_models_files_path_def
      demo_world_def demo_loader_def demo_world_after_def)

theorem get_predictions_cached_or_error_witness:
  "''BTC_USDT'' \<in> dom (session_models demo_loader)
   \<and> get_predictions (\<lambda>m x. Inr (x + 1)) demo_loader ''BTC_USDT'' (41 :: int) =
       (Inr 42, demo_loader)
   \<and> ''ETH_USDT'' \<notin> dom (session_models demo_loader)
   \<and> get_predictions (\<lambda>m x. Inr (x + 1)) demo_loader ''ETH_USDT'' (41 :: int) =
       (Inl (ValueError ''Model not found in session.''), demo_loader)"
proof -
  have a: "''BTC_USDT'' \<in> dom (session_models demo_loader)"
    and b: "''ETH_USDT'' \<notin> dom (session_models demo_loader)"
    by (simp_all add: demo_loader_def)
  from a get_predictions_cached_or_error [of "''BTC_USDT''" demo_loader "\<lambda>m x. Inr (x + 1)" "41 :: int"]
  have "get_predictions (\<lambda>m x. Inr (x + 1)) demo_loader ''BTC_USDT'' (41 :: int) =
       (Inr 42, demo_loader)" by auto
  moreover from b get_predictions_cached_or_error [of "''ETH_USDT''" demo_loader "\<lambda>m x. Inr (x + 1)" "41 :: int"]
  have "get_predictions (\<lambda>m x. Inr (x + 1)) demo_loader ''ETH_USDT'' (41 :: int) =
       (Inl (ValueError ''Model not found in session.''), demo_loader)" by blast
  ultimately show ?thesis using a b by blast
qed

theorem update_model_files_one_underscore_witness:
  "update_model_files remdups (demo_loader \<lparr> session_models := Map.empty \<rparr>) demo_world =
     (Inr (), demo_loader, demo_world_after)
   \<and> (\<exists>names. get_list_of_available_models remdups
                 (demo_loader \<lparr> session_models := Map.empty \<rparr>) demo_world = Inr names
         \<and> (\<forall>n \<in> set names. count_list n CHR ''_'' = 1))
   \<and> count_list ''BTCUSDT'' CHR ''_'' \<noteq> 1
   \<and> (\<exists>msg. unpack2 (split_on CHR ''_'' ''BTCUSDT'') = Inl (ValueError msg))
   \<and> count_list ''BTC_USD_T'' CHR ''_'' \<noteq> 1
   \<and> (\<exists>msg. unpack2 (split_on CHR ''_'' ''BTC_USD_T'') = Inl (ValueError msg))
   \<and> count_list ''BTC_USDT'' CHR ''_'' = 1
   \<and> (\<exists>currency compare. unpack2 (split_on CHR ''_'' ''BTC_USDT'') = Inr (currency, compare)
         \<and> ''BTC_USDT'' = currency @ ''_'' @ compare
         \<and> CHR ''_'' \<notin> set currency \<and> CHR ''_'' \<notin> set compare)"
proof -
  have c0: "count_list ''BTCUSDT'' CHR ''_'' \<noteq> 1"
    and c2: "count_list ''BTC_USD_T'' CHR ''_'' \<noteq> 1"
    and c1: "count_list ''BTC_USDT'' CHR ''_'' = 1"
    by simp_all
  note t = update_model_files_one_underscore [where as_list = remdups
      and self = "demo_loader \<lparr> session_models := Map.empty \<rparr>" and w = demo_world
      and u = "()" and self' = demo_loader and w' = demo_world_after]
  from demo_update c0 c1 t [of "''BTCUSDT''"] t [of "''BTC_USDT''"] c2 t [of "''BTC_USD_T''"]
  show ?thesis by blast
qed


theorem loader_pinned_to_date_witness:
  "ModelLoader_init remdups ''crypto'' demo_world = (Inr demo_loader, demo_world_after)
   \<and> date demo_loader = today demo_world
   \<and> get_list_of_available_models remdups demo_loader demo_world_after = Inr [''BTC_USDT'']
   \<and> (\<exists>objs obj. buckets demo_world_after (bucket demo_loader) = Some objs \<and> obj \<in> set objs
         \<and> prefix (date demo_loader) obj \<and> index1 (split_on CHR ''/'' obj) = Inr ''BTC_USDT'')
   \<and> update_model_files remdups (demo_loader \<lparr> session_models := Map.empty \<rparr>) demo_world =
       (Inr (), demo_loader, demo_world_after)
   \<and> (\<exists>new. fetched demo_world_after = fetched demo_world @ new
         \<and> list_all (from_date (demo_loader \<lparr> session_models := Map.empty \<rparr>)) new)
   \<and> (\<exists>new. fetched (snd (download_files demo_loader demo_world ''BTC'' ''USDT'')) =
                fetched demo_world @ new
         \<and> list_all (from_date demo_loader) new)
   \<and> length ''2022-02-28'' = length (date demo_loader) \<and> ''2022-02-28'' \<noteq> date demo_loader
   \<and> \<not> prefix (date demo_loader) (''2022-02-28'' @ ''/'' @ ''ETH_USDT/model.onnx'')
   \<and> \<not> from_date demo_loader
         (''crypto'', ''2022-02-28'' @ ''/'' @ ''ETH_USDT/model.onnx'',
          ''models/ETH_USDT/model.onnx'')"
proof -
  have len: "length ''2022-02-28'' = length (date demo_loader) \<and> ''2022-02-28'' \<noteq> date demo_loader"
    by (simp add: demo_loader_def)
  have dl: "download_files demo_loader demo_world ''BTC'' ''USDT'' =
      (fst (download_files demo_loader demo_world ''BTC'' ''USDT''),
       snd (download_files demo_loader demo_world ''BTC'' ''USDT''))"
    by simp
  note t = loader_pinned_to_date [OF set_remdups]
  have 1: "date demo_loader = today demo_world"
    using t [THEN conjunct1, rule_format, OF demo_init] .
  have "\<forall>n \<in> set [''BTC_USDT'']. \<exists>objs obj.
          buckets demo_world_after (bucket demo_loader) = Some objs \<and> obj \<in> set objs
          \<and> prefix (date demo_loader) obj \<and> index1 (split_on CHR ''/'' obj) = Inr n"
    using t [THEN conjunct2, THEN conjunct2, THEN conjunct1, rule_format, OF demo_list_after]
    by blast
  then have 2: "\<exists>objs obj. buckets demo_world_after (bucket demo_loader) = Some objs
         \<and> obj \<in> set objs
         \<and> prefix (date demo_loader) obj \<and> index1 (split_on CHR ''/'' obj) = Inr ''BTC_USDT''"
    by simp
  have 3: "\<exists>new. fetched demo_world_after = fetched demo_world @ new
         \<and> list_all (from_date (demo_loader \<lparr> session_models := Map.empty \<rparr>)) new"
    using t [THEN conjunct2, THEN conjunct2, THEN conjunct2, THEN conjunct2, THEN conjunct1,
        rule_format, OF demo_update]
    by blast
  have 4: "\<exists>new. fetched (snd (download_files demo_loader demo_world ''BTC'' ''USDT'')) =
                fetched demo_world @ new
         \<and> list_all (from_date demo_loader) new"
    using t [THEN conjunct2, THEN conjunct2, THEN conjunct2, THEN conjunct1, rule_format, OF dl] .
  have 5: "\<not> prefix (date demo_loader) (''2022-02-28'' @ ''/'' @ ''ETH_USDT/model.onnx'')
   \<and> \<not> from_date demo_loader
         (''crypto'', ''2022-02-28'' @ ''/'' @ ''ETH_USDT/model.onnx'',
          ''models/ETH_USDT/model.onnx'')"
    using t [THEN conjunct2, THEN conjunct2, THEN conjunct2, THEN conjunct2, THEN conjunct2,
        THEN conjunct2, THEN conjunct2, rule_format, OF len] .
  from demo_init demo_list_after demo_update 1 2 3 4 5 len show ?thesis by blast
qed

end
